theory Spec2Isabelle
  imports Main
begin

section \<open>JavaScript strings\<close>

text \<open>
  A JavaScript string is a sequence of UTF-16 code units. The model uses \<open>string\<close>
  (a \<open>char list\<close>), reading a \<open>char\<close> as a code unit below 256; \<open>length\<close> is
  the \<open>.length\<close> of the source and \<open>take\<close> its \<open>substring(0, n)\<close>.
\<close>

definition is_digit :: "char \<Rightarrow> bool" where
  "is_digit c = (48 \<le> (of_char c :: nat) \<and> (of_char c :: nat) \<le> 57)"

text \<open>
  The class \<open>\s\<close> of a regular expression and the characters \<open>trim()\<close> removes
  are the same set: tab, line feed, vertical tab, form feed, carriage return, space and
  the no-break space (the members below 256).
\<close>

definition is_ws :: "char \<Rightarrow> bool" where
  "is_ws c = (of_char c \<in> {9, 10, 11, 12, 13, 32, 160 :: nat})"

definition trim :: "string \<Rightarrow> string" where
  "trim s = rev (dropWhile is_ws (rev (dropWhile is_ws s)))"

definition startsWith :: "string \<Rightarrow> string \<Rightarrow> bool" where
  "startsWith s p = (take (length p) s = p)"

definition endsWith :: "string \<Rightarrow> string \<Rightarrow> bool" where
  "endsWith s p = startsWith (rev s) (rev p)"

fun str_includes :: "string \<Rightarrow> string \<Rightarrow> bool" where
  "str_includes [] p = (p = [])"
| "str_includes (c # cs) p = (startsWith (c # cs) p \<or> str_includes cs p)"

definition lower_char :: "char \<Rightarrow> char" where
  "lower_char c =
     (let n = (of_char c :: nat)
      in if (65 \<le> n \<and> n \<le> 90) \<or> (192 \<le> n \<and> n \<le> 222 \<and> n \<noteq> 215)
         then char_of (n + 32) else c)"

definition toLowerCase :: "string \<Rightarrow> string" where
  "toLowerCase s = map lower_char s"

text \<open>
  \<open>split_when P s\<close> cuts \<open>s\<close> at every character satisfying \<open>P\<close>, keeping empty
  pieces: \<open>s.split('/')\<close> is \<open>split_on (CHR ''/'') s\<close>.
\<close>

fun split_when :: "(char \<Rightarrow> bool) \<Rightarrow> string \<Rightarrow> string list" where
  "split_when P [] = [[]]"
| "split_when P (c # cs) =
     (if P c then [] # split_when P cs
      else (case split_when P cs of p # ps \<Rightarrow> (c # p) # ps | [] \<Rightarrow> [[c]]))"

definition split_on :: "char \<Rightarrow> string \<Rightarrow> string list" where
  "split_on d s = split_when (\<lambda>c. c = d) s"

text \<open>
  \<open>parseInt\<close> of a capture of \<open>\d+\<close>, and the decimal text a template literal
  gives a number. Page numbers are naturals here; a JavaScript number is exact only below
  \<open>2^53\<close>. Beyond it the number a rewritten URL carries, how it prints, and so which
  rewriting is the first to differ from the URL can differ from the source's; that a
  rewriting differs, and the bounds on passes and requests, do not depend on it.
\<close>

definition digit_val :: "char \<Rightarrow> nat" where
  "digit_val c = of_char c - 48"

definition parseInt_digits :: "string \<Rightarrow> nat" where
  "parseInt_digits ds = foldl (\<lambda>n c. 10 * n + digit_val c) 0 ds"

fun show_nat :: "nat \<Rightarrow> string" where
  "show_nat n =
     (if n < 10 then [char_of (48 + n)]
      else show_nat (n div 10) @ [char_of (48 + n mod 10)])"

declare show_nat.simps [simp del]

subsection \<open>The regular expressions of the source\<close>

text \<open>
  The patterns \<open>/\/page\/\d+/\<close>, \<open>/\?page=\d+/\<close>, \<open>/&page=\d+/\<close> and
  \<open>/\/p\/\d+/\<close> are a literal followed by a greedy, non-empty run of digits.
  \<open>match_at lit s\<close> matches one at the start of \<open>s\<close> and returns the digits and
  what follows; \<open>re_search\<close> finds the leftmost match, as \<open>String.prototype.match\<close>
  and a non-global \<open>replace\<close> do, and returns what precedes it as well.
\<close>

definition match_at :: "string \<Rightarrow> string \<Rightarrow> (string \<times> string) option" where
  "match_at lit s =
     (if startsWith s lit
      then (let t = drop (length lit) s; ds = takeWhile is_digit t
            in if ds = [] then None else Some (ds, dropWhile is_digit t))
      else None)"

fun re_search :: "string \<Rightarrow> string \<Rightarrow> (string \<times> string \<times> string) option" where
  "re_search lit [] = None"
| "re_search lit (c # cs) =
     (case match_at lit (c # cs) of
        Some (ds, r) \<Rightarrow> Some ([], ds, r)
      | None \<Rightarrow> map_option (\<lambda>(p, ds, r). (c # p, ds, r)) (re_search lit cs))"

definition re_replace :: "string \<Rightarrow> string \<Rightarrow> string \<Rightarrow> string" where
  "re_replace lit repl s =
     (case re_search lit s of None \<Rightarrow> s | Some (p, ds, r) \<Rightarrow> p @ repl @ r)"

text \<open>\<open>s.replace(/\/$/, '')\<close>: one trailing slash is removed.\<close>

definition strip_trailing_slash :: "string \<Rightarrow> string" where
  "strip_trailing_slash s = (if endsWith s ''/'' then butlast s else s)"

section \<open>The URL class\<close>

text \<open>
  \<open>new URL(input)\<close> and \<open>new URL(input, base)\<close> are Node's WHATWG URL parser, which
  is not code of this repository: the model takes the constructor as a parameter
  \<open>URL input base\<close>, \<open>None\<close> when it throws. Of a parsed URL the source reads
  \<open>href\<close>, \<open>hostname\<close>, \<open>pathname\<close> and \<open>search\<close>.
\<close>

record url =
  href :: string
  hostname :: string
  pathname :: string
  search :: string

type_synonym url_ctor = "string \<Rightarrow> string option \<Rightarrow> url option"

text \<open>
  \<open>plainURL\<close> is an executable instance of the constructor for running the model on
  concrete pages. It accepts only inputs that the WHATWG parser leaves as they are:
  \<open>http://\<close> or \<open>https://\<close>, a host of lower-case letters and inner dots, a path
  that starts with \<open>/\<close> and has no segment starting with a dot, and an optional
  non-empty query; against a base it also accepts a path-absolute reference. It refuses
  every other input.
\<close>

definition is_lower :: "char \<Rightarrow> bool" where
  "is_lower c = (97 \<le> (of_char c :: nat) \<and> (of_char c :: nat) \<le> 122)"

definition is_alnum :: "char \<Rightarrow> bool" where
  "is_alnum c =
     (is_lower c \<or> (65 \<le> (of_char c :: nat) \<and> (of_char c :: nat) \<le> 90) \<or> is_digit c)"

definition plain_host :: "string \<Rightarrow> bool" where
  "plain_host h =
     (h \<noteq> [] \<and> list_all (\<lambda>c. is_lower c \<or> c = CHR ''.'') h
      \<and> hd h \<noteq> CHR ''.'' \<and> last h \<noteq> CHR ''.'' \<and> \<not> str_includes h ''..'')"

definition plain_path :: "string \<Rightarrow> bool" where
  "plain_path p =
     (startsWith p ''/'' \<and> list_all (\<lambda>c. is_alnum c \<or> c \<in> set ''-_./'') p
      \<and> \<not> str_includes p ''/.'')"

definition plain_query :: "string \<Rightarrow> bool" where
  "plain_query q =
     (q = [] \<or> (startsWith q ''?'' \<and> tl q \<noteq> []
                 \<and> list_all (\<lambda>c. is_alnum c \<or> c \<in> set ''-_.=&'') (tl q)))"

definition plain_abs :: "string \<Rightarrow> url option" where
  "plain_abs s =
     (let rest = (if startsWith s ''https://'' then Some (drop 8 s)
                  else if startsWith s ''http://'' then Some (drop 7 s) else None)
      in case rest of
           None \<Rightarrow> None
         | Some r \<Rightarrow>
             (let h = takeWhile (\<lambda>c. c \<noteq> CHR ''/'') r;
                  t = dropWhile (\<lambda>c. c \<noteq> CHR ''/'') r;
                  p = takeWhile (\<lambda>c. c \<noteq> CHR ''?'') t;
                  q = dropWhile (\<lambda>c. c \<noteq> CHR ''?'') t
              in if plain_host h \<and> plain_path p \<and> plain_query q
                 then Some \<lparr>href = s, hostname = h, pathname = p, search = q\<rparr>
                 else None))"

definition plainURL :: url_ctor where
  "plainURL input base =
     (case plain_abs input of
        Some u \<Rightarrow> Some u
      | None \<Rightarrow>
          (case base of
             None \<Rightarrow> None
           | Some b \<Rightarrow>
               (case plain_abs b of
                  None \<Rightarrow> None
                | Some bu \<Rightarrow>
                    if startsWith input ''/'' \<and> \<not> startsWith input ''//''
                    then plain_abs (take (length (href bu) - length (pathname bu)
                                          - length (search bu)) (href bu) @ input)
                    else None)))"

section \<open>pagination.js: validation of a next-page candidate\<close>

record options =
  maxPages :: nat
  delayBetweenPages :: nat
  sameDomainOnly :: bool

definition default_options :: options where
  "default_options = \<lparr>maxPages = 5, delayBetweenPages = 1000, sameDomainOnly = True\<rparr>"

text \<open>
  \<open>extractPageNumber\<close>: the first of the four patterns that matches gives the page
  number; 1 when none does.
\<close>

definition page_patterns :: "string list" where
  "page_patterns = [''/page/'', ''?page='', ''&page='', ''/p/'']"

fun first_page_match :: "string list \<Rightarrow> string \<Rightarrow> nat option" where
  "first_page_match [] u = None"
| "first_page_match (p # ps) u =
     (case re_search p u of
        Some (pre, ds, r) \<Rightarrow> Some (parseInt_digits ds)
      | None \<Rightarrow> first_page_match ps u)"

definition extractPageNumber :: "string \<Rightarrow> nat" where
  "extractPageNumber u = (case first_page_match page_patterns u of Some n \<Rightarrow> n | None \<Rightarrow> 1)"

text \<open>
  \<open>basePath\<close> of \<open>isValidPagination\<close>:
  \<open>currentPath.replace(/\/page\/\d+/, '').replace(/\/p\/\d+/, '')\<close>.
\<close>

definition basePath :: "string \<Rightarrow> string" where
  "basePath currentPath = re_replace ''/p/'' '''' (re_replace ''/page/'' '''' currentPath)"

text \<open>
  \<open>isValidPagination(currentUrl, nextUrl, options)\<close>. Either constructor throwing
  is caught and gives \<open>false\<close>.
\<close>

definition isValidPagination :: "url_ctor \<Rightarrow> string \<Rightarrow> string \<Rightarrow> options \<Rightarrow> bool" where
  "isValidPagination URL currentUrl nextUrl opts =
     (case URL currentUrl None of
        None \<Rightarrow> False
      | Some current \<Rightarrow>
          (case URL nextUrl None of
             None \<Rightarrow> False
           | Some nxt \<Rightarrow>
               if sameDomainOnly opts \<and> hostname current \<noteq> hostname nxt then False
               else if currentUrl = nextUrl then False
               else startsWith (pathname nxt) (basePath (pathname current))
                    \<or> str_includes (pathname nxt) ''page''
                    \<or> str_includes (search nxt) ''page''))"

text \<open>
  The validation as the specification words it: the current path is stripped of a
  \<open>/page/<digits>\<close> or \<open>/p/<digits>\<close> suffix, that is, of such a segment where the
  path ends with it.
\<close>

definition strip_suffix_spec :: "string \<Rightarrow> string \<Rightarrow> string" where
  "strip_suffix_spec lit s =
     (let ds = takeWhile is_digit (rev s); r = drop (length ds) (rev s)
      in if ds \<noteq> [] \<and> startsWith r (rev lit) then rev (drop (length lit) r) else s)"

definition isValidNext_spec :: "url_ctor \<Rightarrow> string \<Rightarrow> string \<Rightarrow> bool \<Rightarrow> bool" where
  "isValidNext_spec URL currentUrl candidate sameDomain =
     (case URL currentUrl None of
        None \<Rightarrow> False
      | Some current \<Rightarrow>
          (case URL candidate None of
             None \<Rightarrow> False
           | Some cand \<Rightarrow>
               if sameDomain \<and> hostname current \<noteq> hostname cand then False
               else if candidate = currentUrl then False
               else startsWith (pathname cand)
                      (strip_suffix_spec ''/p/'' (strip_suffix_spec ''/page/'' (pathname current)))
                    \<or> str_includes (pathname cand) ''page''
                    \<or> str_includes (search cand) ''page''))"

section \<open>The parsed document (cheerio)\<close>

text \<open>
  \<open>cheerio.load\<close> parses markup into a tree of elements and text nodes; the model
  starts from that tree (tag and attribute names in lower case, as the parser leaves
  them). A Cheerio object is a list of nodes in document order.
\<close>

datatype node =
    Element (tagName: string) (attribs: "(string \<times> string) list") (childNodes: "node list")
  | TextNode (nodeData: string)

type_synonym document = "node list"

fun text_of :: "node \<Rightarrow> string" where
  "text_of (TextNode t) = t"
| "text_of (Element tg ats cs) = concat (map text_of cs)"

definition attr :: "node \<Rightarrow> string \<Rightarrow> string option" where
  "attr e a = (case e of Element tg ats cs \<Rightarrow> map_of ats a | TextNode t \<Rightarrow> None)"

text \<open>\<open>.first()\<close>, \<open>.text()\<close> and \<open>.attr(name)\<close> of a Cheerio object.\<close>

definition first :: "node list \<Rightarrow> node list" where
  "first sel = take 1 sel"

definition sel_text :: "node list \<Rightarrow> string" where
  "sel_text sel = concat (map text_of sel)"

definition sel_attr :: "node list \<Rightarrow> string \<Rightarrow> string option" where
  "sel_attr sel a = (case sel of [] \<Rightarrow> None | e # es \<Rightarrow> attr e a)"

text \<open>
  The selectors the source uses: a tag, \<open>.cls\<close>, \<open>[a]\<close>, \<open>[a="v"]\<close> and
  \<open>[a*="v"]\<close>, combined in one compound (\<open>a[href]\<close>, \<open>article.post\<close>), chained by the
  descendant combinator (\<open>.pagination a.next\<close>, outermost first) and listed with commas.
  Attribute values are compared as they are, except those of \<open>rel\<close>, which the
  selector engine compares without regard to case in an HTML document (of the attributes
  the source's selectors name, \<open>class\<close>, \<open>id\<close>, \<open>href\<close>, \<open>title\<close>,
  \<open>datetime\<close> and \<open>rel\<close>, it is the only one).
\<close>

datatype simple =
    Tag string
  | Class string
  | HasAttr string
  | AttrEq string string
  | AttrSub string string

type_synonym compound = "simple list"
type_synonym complex = "compound list"
type_synonym selector = "complex list"

definition one :: "compound \<Rightarrow> selector" where
  "one c = [[c]]"

definition class_tokens :: "string \<Rightarrow> string list" where
  "class_tokens v = filter (\<lambda>t. t \<noteq> []) (split_when is_ws v)"

fun match_simple :: "node \<Rightarrow> simple \<Rightarrow> bool" where
  "match_simple e (Tag t) = (case e of Element tg ats cs \<Rightarrow> tg = t | TextNode x \<Rightarrow> False)"
| "match_simple e (Class c) =
     (case attr e ''class'' of None \<Rightarrow> False | Some v \<Rightarrow> c \<in> set (class_tokens v))"
| "match_simple e (HasAttr a) = (case attr e a of None \<Rightarrow> False | Some v \<Rightarrow> True)"
| "match_simple e (AttrEq a v) =
     (case attr e a of
        None \<Rightarrow> False
      | Some x \<Rightarrow> if a = ''rel'' then toLowerCase x = toLowerCase v else x = v)"
| "match_simple e (AttrSub a v) =
     (case attr e a of
        None \<Rightarrow> False
      | Some x \<Rightarrow>
          if a = ''rel'' then str_includes (toLowerCase x) (toLowerCase v)
          else str_includes x v)"

definition match_compound :: "node \<Rightarrow> compound \<Rightarrow> bool" where
  "match_compound e c = list_all (match_simple e) c"

text \<open>
  \<open>match_chain anc cs\<close>: the remaining compounds \<open>cs\<close> (innermost first) are matched by
  elements of the ancestor chain \<open>anc\<close> (nearest first), in order.
\<close>

fun match_chain :: "node list \<Rightarrow> compound list \<Rightarrow> bool" where
  "match_chain anc [] = True"
| "match_chain [] (c # cs) = False"
| "match_chain (a # anc) (c # cs) =
     (if match_compound a c then match_chain anc cs else match_chain anc (c # cs))"

definition match_complex :: "node list \<Rightarrow> node \<Rightarrow> complex \<Rightarrow> bool" where
  "match_complex anc e cx =
     (case rev cx of [] \<Rightarrow> False | c # cs \<Rightarrow> match_compound e c \<and> match_chain anc cs)"

definition matches :: "node list \<Rightarrow> node \<Rightarrow> selector \<Rightarrow> bool" where
  "matches anc e sel = list_ex (match_complex anc e) sel"

fun select_from :: "node list \<Rightarrow> selector \<Rightarrow> node \<Rightarrow> node list" where
  "select_from anc sel (TextNode t) = []"
| "select_from anc sel (Element tg ats cs) =
     (if matches anc (Element tg ats cs) sel then [Element tg ats cs] else [])
     @ concat (map (select_from (Element tg ats cs # anc) sel) cs)"

text \<open>\<open>$(selector)\<close> on the loaded document, and \<open>$el.find(selector)\<close>.\<close>

definition query :: "document \<Rightarrow> selector \<Rightarrow> node list" where
  "query doc sel = concat (map (select_from [] sel) doc)"

definition cheerio_find :: "node \<Rightarrow> selector \<Rightarrow> node list" where
  "cheerio_find e sel = concat (map (select_from [e] sel) (childNodes e))"

text \<open>
  \<open>a || b\<close> where \<open>a\<close> is an attribute value (\<open>undefined\<close> and the empty string are
  falsy), and where \<open>a\<close> and \<open>b\<close> are Cheerio objects: an object is truthy whatever
  its length, so the value is always \<open>a\<close>.
\<close>

definition attr_or :: "string option \<Rightarrow> string \<Rightarrow> string" where
  "attr_or a d = (case a of None \<Rightarrow> d | Some v \<Rightarrow> if v = [] then d else v)"

definition obj_or :: "node list \<Rightarrow> node list \<Rightarrow> node list" where
  "obj_or a b = a"

section \<open>scraper.js: the extraction engine\<close>

text \<open>
  An article as \<open>parseArticle\<close> and \<open>extractFromLinks\<close> build it. The field
  \<open>scrapedAt\<close> (a reading of the system clock) is left out.
\<close>

record article =
  title :: string
  url :: string
  description :: string
  image :: string
  date :: string
  author :: string

text \<open>
  \<open>cleanText\<close>: \<open>replace(/\s+/g, ' ')\<close>, then \<open>replace(/\n+/g, ' ')\<close>, then
  \<open>trim()\<close>. \<open>replace_runs P s\<close> puts one space for every maximal run of characters
  satisfying \<open>P\<close>.
\<close>

fun replace_runs :: "(char \<Rightarrow> bool) \<Rightarrow> string \<Rightarrow> string" where
  "replace_runs P [] = []"
| "replace_runs P [c] = (if P c then '' '' else [c])"
| "replace_runs P (c # d # cs) =
     (if P c then (if P d then replace_runs P (d # cs) else CHR '' '' # replace_runs P (d # cs))
      else c # replace_runs P (d # cs))"

definition cleanText :: "string \<Rightarrow> string" where
  "cleanText t =
     (if t = [] then []
      else trim (replace_runs (\<lambda>c. c = CHR 0x0A) (replace_runs is_ws t)))"

definition isValidUrl :: "url_ctor \<Rightarrow> string \<Rightarrow> bool" where
  "isValidUrl URL u =
     (case URL u None of
        None \<Rightarrow> False
      | Some parsed \<Rightarrow> startsWith u ''http://'' \<or> startsWith u ''https://'')"

text \<open>
  \<open>looksLikeArticleUrl\<close>. \<open>date_at\<close> is \<open>/\/\d{4}\/\d{2}\//\<close> at the start of a
  string; the other patterns are literals, the last four of the skip list anchored at the
  end.
\<close>

definition date_at :: "string \<Rightarrow> bool" where
  "date_at s =
     (9 \<le> length s \<and> s ! 0 = CHR ''/'' \<and> list_all is_digit (take 4 (drop 1 s))
      \<and> s ! 5 = CHR ''/'' \<and> list_all is_digit (take 2 (drop 6 s)) \<and> s ! 8 = CHR ''/'')"

fun has_date :: "string \<Rightarrow> bool" where
  "has_date [] = False"
| "has_date (c # cs) = (date_at (c # cs) \<or> has_date cs)"

definition articlePatterns :: "(string \<Rightarrow> bool) list" where
  "articlePatterns =
     [\<lambda>s. str_includes s ''/news/'',
      \<lambda>s. str_includes s ''/article/'',
      \<lambda>s. str_includes s ''/story/'',
      \<lambda>s. str_includes s ''/post/'',
      has_date,
      \<lambda>s. str_includes s ''-article-'',
      \<lambda>s. str_includes s ''-news-'']"

definition skipPatterns :: "(string \<Rightarrow> bool) list" where
  "skipPatterns =
     [\<lambda>s. str_includes s ''/category/'',
      \<lambda>s. str_includes s ''/tag/'',
      \<lambda>s. str_includes s ''/author/'',
      \<lambda>s. str_includes s ''/page/'',
      \<lambda>s. endsWith s ''.pdf'',
      \<lambda>s. endsWith s ''.jpg'',
      \<lambda>s. endsWith s ''.png'',
      \<lambda>s. endsWith s ''.gif'']"

definition looksLikeArticleUrl :: "string \<Rightarrow> bool" where
  "looksLikeArticleUrl u =
     (let urlLower = toLowerCase u
      in if list_ex (\<lambda>pattern. pattern urlLower) skipPatterns then False
         else list_ex (\<lambda>pattern. pattern urlLower) articlePatterns
              \<or> 4 \<le> length (split_on (CHR ''/'') urlLower))"



subsection \<open>parseArticle\<close>

definition titleSelectors :: "selector list" where
  "titleSelectors =
     [one [Tag ''h1''], one [Tag ''h2''], one [Tag ''h3''], one [Tag ''h4''],
      one [AttrSub ''class'' ''title''],
      one [AttrSub ''class'' ''headline''],
      one [Class ''entry-title''],
      one [Tag ''a'', HasAttr ''title'']]"

definition linkSelectors :: "selector list" where
  "linkSelectors = [one [Tag ''a'', HasAttr ''href''], one [HasAttr ''href''], one [Tag ''link'']]"

definition descSelectors :: "selector list" where
  "descSelectors =
     [one [Tag ''p''],
      one [AttrSub ''class'' ''excerpt''],
      one [AttrSub ''class'' ''summary''],
      one [AttrSub ''class'' ''description''],
      one [Class ''entry-summary'']]"

text \<open>
  The three \<open>for\<close> loops of \<open>parseArticle\<close>. Each carries the variable the loop
  assigns (\<open>title\<close>, \<open>url\<close>, \<open>description\<close>) as its second-to-last argument and
  returns its value when the loop ends, by \<open>break\<close> or by exhausting the selectors.
\<close>

fun title_loop :: "node \<Rightarrow> string \<Rightarrow> selector list \<Rightarrow> string" where
  "title_loop art t [] = t"
| "title_loop art t (selector # rest) =
     (let titleEl = first (cheerio_find art selector)
      in if titleEl \<noteq> []
         then (let t' = trim (sel_text titleEl)
               in if t' \<noteq> [] then t' else title_loop art t' rest)
         else title_loop art t rest)"

fun url_loop :: "url_ctor \<Rightarrow> string \<Rightarrow> node \<Rightarrow> string \<Rightarrow> selector list \<Rightarrow> string" where
  "url_loop URL baseUrl art u [] = u"
| "url_loop URL baseUrl art u (selector # rest) =
     (let linkEl = first (cheerio_find art selector)
      in if linkEl \<noteq> []
         then (let u' = attr_or (sel_attr linkEl ''href'') []
               in if u' \<noteq> []
                  then (case URL u' (Some baseUrl) of
                          Some r \<Rightarrow> href r
                        | None \<Rightarrow> url_loop URL baseUrl art u' rest)
                  else url_loop URL baseUrl art u' rest)
         else url_loop URL baseUrl art u rest)"

fun desc_loop :: "node \<Rightarrow> string \<Rightarrow> selector list \<Rightarrow> string" where
  "desc_loop art d [] = d"
| "desc_loop art d (selector # rest) =
     (let descEl = first (cheerio_find art selector)
      in if descEl \<noteq> []
         then (let d' = trim (sel_text descEl)
               in if d' \<noteq> [] \<and> 20 < length d' then take 500 d'
                  else desc_loop art d' rest)
         else desc_loop art d rest)"

definition find_image :: "url_ctor \<Rightarrow> string \<Rightarrow> node \<Rightarrow> string" where
  "find_image URL baseUrl art =
     (let imageEl = first (cheerio_find art (one [Tag ''img'']))
      in if imageEl \<noteq> []
         then (let img = attr_or (sel_attr imageEl ''src'')
                           (attr_or (sel_attr imageEl ''data-src'') [])
               in if img \<noteq> []
                  then (case URL img (Some baseUrl) of Some r \<Rightarrow> href r | None \<Rightarrow> [])
                  else img)
         else [])"

definition find_date :: "node \<Rightarrow> string" where
  "find_date art =
     (let dateEl = obj_or (first (cheerio_find art (one [Tag ''time''])))
                     (obj_or (first (cheerio_find art (one [HasAttr ''datetime''])))
                        (first (cheerio_find art (one [AttrSub ''class'' ''date'']))))
      in if dateEl \<noteq> []
         then attr_or (sel_attr dateEl ''datetime'') (trim (sel_text dateEl))
         else [])"

definition find_author :: "node \<Rightarrow> string" where
  "find_author art =
     (let authorEl = obj_or (first (cheerio_find art (one [AttrSub ''class'' ''author''])))
                       (first (cheerio_find art (one [AttrSub ''rel'' ''author''])))
      in if authorEl \<noteq> [] then trim (sel_text authorEl) else [])"

definition parseArticle :: "url_ctor \<Rightarrow> node \<Rightarrow> string \<Rightarrow> article option" where
  "parseArticle URL art baseUrl =
     (let t = title_loop art [] titleSelectors;
          u = url_loop URL baseUrl art [] linkSelectors;
          d = desc_loop art [] descSelectors;
          img = find_image URL baseUrl art;
          dt = find_date art;
          au = find_author art
      in if t \<noteq> [] \<and> u \<noteq> [] \<and> isValidUrl URL u
         then Some \<lparr>title = cleanText t, url = u, description = cleanText d,
                     image = img, date = dt, author = au\<rparr>
         else None)"

subsection \<open>extractFromLinks\<close>

definition skipClasses :: "string list" where
  "skipClasses = [''nav'', ''menu'', ''footer'', ''header'', ''sidebar'', ''comment'']"

definition link_article :: "url_ctor \<Rightarrow> string \<Rightarrow> node \<Rightarrow> article list" where
  "link_article URL baseUrl lnk =
     (let h = attr_or (attr lnk ''href'') [];
          txt = trim (text_of lnk)
      in if txt = [] \<or> length txt < 15 \<or> 200 < length txt then []
         else (let className = toLowerCase (attr_or (attr lnk ''class'') [])
               in if list_ex (\<lambda>skip. str_includes className skip) skipClasses then []
                  else (case URL h (Some baseUrl) of
                          None \<Rightarrow> []
                        | Some r \<Rightarrow>
                            if isValidUrl URL (href r) \<and> looksLikeArticleUrl (href r)
                            then [\<lparr>title = cleanText txt, url = href r, description = [],
                                   image = [], date = [], author = []\<rparr>]
                            else [])))"

definition extractFromLinks :: "url_ctor \<Rightarrow> document \<Rightarrow> string \<Rightarrow> article list" where
  "extractFromLinks URL doc baseUrl =
     take 50 (concat (map (link_article URL baseUrl)
                (query doc (one [Tag ''a'', HasAttr ''href'']))))"

subsection \<open>extractArticles\<close>

definition selectors :: "selector list" where
  "selectors =
     [one [Tag ''article''],
      one [AttrSub ''class'' ''article''],
      one [AttrSub ''class'' ''news''],
      one [AttrSub ''class'' ''post''],
      one [AttrSub ''id'' ''article''],
      one [AttrSub ''id'' ''news''],
      one [AttrSub ''id'' ''post''],
      one [Class ''news-item''],
      one [Class ''story''],
      one [Class ''entry''],
      one [Class ''card''],
      one [Class ''item''],
      one [Tag ''article'', Class ''article''],
      one [Tag ''article'', Class ''post''],
      one [Tag ''article'', Class ''story'']]"

text \<open>
  \<open>each_element\<close> is the body of \<open>elements.each\<close> run over the matched elements,
  with the two variables it updates, \<open>articles\<close> and \<open>seenUrls\<close>.
\<close>

fun each_element ::
  "url_ctor \<Rightarrow> string \<Rightarrow> article list \<times> string set \<Rightarrow> node list \<Rightarrow> article list \<times> string set"
where
  "each_element URL baseUrl (articles, seenUrls) [] = (articles, seenUrls)"
| "each_element URL baseUrl (articles, seenUrls) (element # rest) =
     (case parseArticle URL element baseUrl of
        None \<Rightarrow> each_element URL baseUrl (articles, seenUrls) rest
      | Some a \<Rightarrow>
          if title a \<noteq> [] \<and> url a \<noteq> [] \<and> url a \<notin> seenUrls
          then each_element URL baseUrl (articles @ [a], insert (url a) seenUrls) rest
          else each_element URL baseUrl (articles, seenUrls) rest)"

text \<open>The loop over the selectors, left by \<open>break\<close> once \<open>articles\<close> is not empty.\<close>

fun try_selectors ::
  "url_ctor \<Rightarrow> document \<Rightarrow> string \<Rightarrow> article list \<times> string set \<Rightarrow> selector list
     \<Rightarrow> article list \<times> string set"
where
  "try_selectors URL doc baseUrl st [] = st"
| "try_selectors URL doc baseUrl st (selector # rest) =
     (let st' = each_element URL baseUrl st (query doc selector)
      in if 0 < length (fst st') then st' else try_selectors URL doc baseUrl st' rest)"

text \<open>
  \<open>extractArticles_with sels\<close> is \<open>extractArticles\<close> with the list of container
  selectors as an argument; the source's own list gives \<open>extractArticles\<close>.
\<close>

definition extractArticles_with ::
  "selector list \<Rightarrow> url_ctor \<Rightarrow> document \<Rightarrow> string \<Rightarrow> article list" where
  "extractArticles_with sels URL doc baseUrl =
     (let articles = fst (try_selectors URL doc baseUrl ([], {}) sels)
      in if length articles = 0 then articles @ extractFromLinks URL doc baseUrl
         else articles)"

definition extractArticles :: "url_ctor \<Rightarrow> document \<Rightarrow> string \<Rightarrow> article list" where
  "extractArticles URL doc baseUrl = extractArticles_with selectors URL doc baseUrl"

section \<open>The runtime: network, number parsing, storage\<close>

text \<open>
  What the crawl reads from outside the repository is a record of functions. The state
  of the outside world is a value of type \<open>'w\<close> that every request takes and returns, so
  that two requests for one address may be answered differently.
  \<^item> \<open>rt_get w u\<close> is \<open>axios.get(u, ...)\<close> followed by \<open>cheerio.load\<close>: \<open>Inl\<close> an
    error message (network error, timeout, non-success status), \<open>Inr\<close> the document.
  \<^item> \<open>rt_isNaN\<close> and \<open>rt_parseInt\<close> are the globals \<open>isNaN\<close> and \<open>parseInt\<close> on a
    string (\<open>None\<close> is \<open>NaN\<close>).
  \<^item> \<open>rt_save\<close> is the storage module (\<open>saveToCsv\<close>, \<open>saveToBoth\<close>,
    \<open>saveToJson\<close>): \<open>Inl\<close> the message of a thrown error, \<open>Inr\<close> the file path.
\<close>

datatype saver = SaveToCsv | SaveToBoth | SaveToJson

record 'w runtime =
  rt_URL :: url_ctor
  rt_isNaN :: "string \<Rightarrow> bool"
  rt_parseInt :: "string \<Rightarrow> int option"
  rt_get :: "'w \<Rightarrow> string \<Rightarrow> (string + document) \<times> 'w"
  rt_save :: "'w \<Rightarrow> saver \<Rightarrow> article list \<Rightarrow> string option \<Rightarrow> (string + string) \<times> 'w"

section \<open>scraper.js: fetching a page\<close>

text \<open>
  \<open>scrapeWithCheerio\<close> catches every error of the request and returns the empty array.
  \<open>scrapeNews\<close> wraps it in a \<open>try\<close> whose \<open>catch\<close> rethrows; its result type
  has \<open>Inl\<close> for a thrown error and \<open>Inr\<close> for the array, and since
  \<open>scrapeWithCheerio\<close> throws nothing the \<open>catch\<close> is never entered.
\<close>

definition scrapeWithCheerio :: "'w runtime \<Rightarrow> 'w \<Rightarrow> string \<Rightarrow> article list \<times> 'w" where
  "scrapeWithCheerio rt w u =
     (case rt_get rt w u of
        (Inl err, w') \<Rightarrow> ([], w')
      | (Inr doc, w') \<Rightarrow> (extractArticles (rt_URL rt) doc u, w'))"

definition scrapeNews :: "'w runtime \<Rightarrow> 'w \<Rightarrow> string \<Rightarrow> (string + article list) \<times> 'w" where
  "scrapeNews rt w u = (case scrapeWithCheerio rt w u of (arts, w') \<Rightarrow> (Inr arts, w'))"

section \<open>pagination.js: discovery of the next page\<close>

text \<open>A JavaScript value used as a condition: \<open>null\<close> and the empty string are falsy.\<close>

definition truthy :: "string option \<Rightarrow> bool" where
  "truthy v = (case v of None \<Rightarrow> False | Some s \<Rightarrow> s \<noteq> [])"

definition nextSelectors :: "selector list" where
  "nextSelectors =
     [one [Tag ''a'', Class ''next''],
      one [Tag ''a'', AttrEq ''rel'' ''next''],
      [[[Class ''pagination''], [Tag ''a'', Class ''next'']]],
      [[[Class ''pagination''], [Class ''next'']]],
      [[[AttrSub ''class'' ''pagination''], [Tag ''a'', AttrSub ''class'' ''next'']]],
      [[[AttrSub ''class'' ''paging''], [Tag ''a'', AttrSub ''class'' ''next'']]]]"

text \<open>Strategy 1: the loop over \<open>nextSelectors\<close>.\<close>

fun next_link_loop :: "url_ctor \<Rightarrow> document \<Rightarrow> string \<Rightarrow> selector list \<Rightarrow> string option" where
  "next_link_loop URL doc currentUrl [] = None"
| "next_link_loop URL doc currentUrl (selector # rest) =
     (let lnk = query doc selector
      in if lnk \<noteq> [] \<and> truthy (sel_attr lnk ''href'')
         then (let h = attr_or (sel_attr lnk ''href'') []
               in if \<not> str_includes h ''javascript:''
                  then (case URL h (Some currentUrl) of
                          Some r \<Rightarrow> Some (href r)
                        | None \<Rightarrow> next_link_loop URL doc currentUrl rest)
                  else next_link_loop URL doc currentUrl rest)
         else next_link_loop URL doc currentUrl rest)"

text \<open>
  Strategy 2: the numbered links inside a pagination container, those with a page
  above the current one, sorted by page (the sort is stable); the first is taken.
\<close>

definition page_link :: "'w runtime \<Rightarrow> string \<Rightarrow> node \<Rightarrow> (string \<times> int option) list" where
  "page_link rt currentUrl el =
     (let h = attr el ''href''; txt = trim (text_of el)
      in if truthy h \<and> \<not> rt_isNaN rt txt
         then (case rt_URL rt (attr_or h []) (Some currentUrl) of
                 Some r \<Rightarrow> [(href r, rt_parseInt rt txt)]
               | None \<Rightarrow> [])
         else [])"

definition above :: "nat \<Rightarrow> string \<times> int option \<Rightarrow> (string \<times> int) list" where
  "above currentPageNum l =
     (case snd l of
        None \<Rightarrow> []
      | Some pg \<Rightarrow> if int currentPageNum < pg then [(fst l, pg)] else [])"

definition numbered_next :: "'w runtime \<Rightarrow> document \<Rightarrow> string \<Rightarrow> string option" where
  "numbered_next rt doc currentUrl =
     (let currentPageNum = extractPageNumber currentUrl;
          pageLinks = concat (map (page_link rt currentUrl)
                        (query doc [[[AttrSub ''class'' ''pagination''], [Tag ''a'']],
                                    [[AttrSub ''class'' ''paging''], [Tag ''a'']]]));
          sortedLinks = sort_key snd (concat (map (above currentPageNum) pageLinks))
      in case sortedLinks of [] \<Rightarrow> None | l # ls \<Rightarrow> Some (fst l))"

text \<open>Strategy 3: the first of six rewritings of the URL that differs from it.\<close>

definition url_patterns :: "string \<Rightarrow> string list" where
  "url_patterns currentUrl =
     (let nextPageNum = show_nat (extractPageNumber currentUrl + 1)
      in [re_replace ''/page/'' (''/page/'' @ nextPageNum) currentUrl,
          re_replace ''?page='' (''?page='' @ nextPageNum) currentUrl,
          re_replace ''&page='' (''&page='' @ nextPageNum) currentUrl,
          re_replace ''/p/'' (''/p/'' @ nextPageNum) currentUrl,
          strip_trailing_slash currentUrl @ ''/page/'' @ nextPageNum,
          currentUrl @ ''?page='' @ nextPageNum])"

definition synthesize :: "string \<Rightarrow> string option" where
  "synthesize currentUrl = List.find (\<lambda>pattern. pattern \<noteq> currentUrl) (url_patterns currentUrl)"

text \<open>
  \<open>discover\<close> is the part of \<open>findNextPage\<close> after the document is loaded;
  \<open>findNextPage\<close> returns \<open>null\<close> when the request fails.
\<close>

definition discover :: "'w runtime \<Rightarrow> document \<Rightarrow> string \<Rightarrow> string option" where
  "discover rt doc currentUrl =
     (let n1 = next_link_loop (rt_URL rt) doc currentUrl nextSelectors;
          n2 = (if \<not> truthy n1
                then (case numbered_next rt doc currentUrl of None \<Rightarrow> n1 | Some u \<Rightarrow> Some u)
                else n1)
      in if \<not> truthy n2
         then (case synthesize currentUrl of None \<Rightarrow> n2 | Some u \<Rightarrow> Some u)
         else n2)"

definition findNextPage :: "'w runtime \<Rightarrow> 'w \<Rightarrow> string \<Rightarrow> string option \<times> 'w" where
  "findNextPage rt w currentUrl =
     (case rt_get rt w currentUrl of
        (Inl err, w') \<Rightarrow> (None, w')
      | (Inr doc, w') \<Rightarrow> (discover rt doc currentUrl, w'))"

section \<open>pagination.js: the crawl loop\<close>

text \<open>
  \<open>scrapePage\<close> calls \<open>scrapeWithCheerio\<close> inside a \<open>try\<close>; nothing is thrown
  there, so its \<open>catch\<close> is never entered.
\<close>

definition scrapePage :: "'w runtime \<Rightarrow> 'w \<Rightarrow> string \<Rightarrow> article list \<times> 'w" where
  "scrapePage rt w u = scrapeWithCheerio rt w u"

text \<open>The \<open>for\<close> loop that adds the articles of a page whose URL was not seen.\<close>

fun add_new :: "article list \<times> string set \<Rightarrow> article list \<Rightarrow> article list \<times> string set" where
  "add_new (allArticles, seenUrls) [] = (allArticles, seenUrls)"
| "add_new (allArticles, seenUrls) (a # rest) =
     (if url a \<notin> seenUrls
      then add_new (allArticles @ [a], insert (url a) seenUrls) rest
      else add_new (allArticles, seenUrls) rest)"

text \<open>
  One pass through the body of the \<open>while\<close> loop: the page is scraped, its new
  articles are added, the next page is looked for and validated. The result is the URL to
  go on with (\<open>None\<close> for \<open>break\<close>), the articles, the seen URLs and the world. The
  delay between pages changes no value. \<open>scrapePage\<close>, \<open>findNextPage\<close> and
  \<open>isValidPagination\<close> catch their own errors, so the \<open>catch\<close> around the body
  (another \<open>break\<close>) is never entered.
\<close>

definition crawl_step ::
  "'w runtime \<Rightarrow> options \<Rightarrow> 'w \<Rightarrow> article list \<times> string set \<Rightarrow> string
     \<Rightarrow> string option \<times> (article list \<times> string set) \<times> 'w" where
  "crawl_step rt opts w st currentPageUrl =
     (case scrapePage rt w currentPageUrl of
        (pageArticles, w1) \<Rightarrow>
          (case findNextPage rt w1 currentPageUrl of
             (nextPageUrl, w2) \<Rightarrow>
               (if truthy nextPageUrl
                   \<and> isValidPagination (rt_URL rt) currentPageUrl (attr_or nextPageUrl []) opts
                then (nextPageUrl, add_new st pageArticles, w2)
                else (None, add_new st pageArticles, w2))))"

text \<open>
  The \<open>while\<close> loop, with the variables \<open>allArticles\<close> and \<open>seenUrls\<close> (as a
  pair), \<open>currentPageUrl\<close> and \<open>pageCount\<close>. It returns the articles, the page count
  (which the source logs) and the world.
\<close>

function crawl_loop ::
  "'w runtime \<Rightarrow> options \<Rightarrow> 'w \<Rightarrow> article list \<times> string set \<Rightarrow> string \<Rightarrow> nat
     \<Rightarrow> (article list \<times> nat) \<times> 'w" where
  "crawl_loop rt opts w st currentPageUrl pageCount =
     (if currentPageUrl \<noteq> [] \<and> pageCount < maxPages opts
      then (case crawl_step rt opts w st currentPageUrl of
              (Some nxt, st', w') \<Rightarrow> crawl_loop rt opts w' st' nxt (pageCount + 1)
            | (None, st', w') \<Rightarrow> ((fst st', pageCount + 1), w'))
      else ((fst st, pageCount), w))"
  by pat_completeness auto
termination
  by (relation "measure (\<lambda>(rt, opts, w, st, u, pageCount). maxPages opts - pageCount)") auto

declare crawl_loop.simps [simp del]

definition scrapeMultiplePages ::
  "'w runtime \<Rightarrow> 'w \<Rightarrow> string \<Rightarrow> options \<Rightarrow> (article list \<times> nat) \<times> 'w" where
  "scrapeMultiplePages rt w u opts = crawl_loop rt opts w ([], {}) u 0"

text \<open>
  \<open>pass rt opts s s'\<close>: from the values \<open>s\<close> of the loop's variables (the world,
  the articles with the seen URLs, \<open>currentPageUrl\<close>, \<open>pageCount\<close>) one pass
  through the loop that does not \<open>break\<close> leads to the values \<open>s'\<close>.
\<close>

definition pass ::
  "'w runtime \<Rightarrow> options \<Rightarrow> 'w \<times> (article list \<times> string set) \<times> string \<times> nat
     \<Rightarrow> 'w \<times> (article list \<times> string set) \<times> string \<times> nat \<Rightarrow> bool" where
  "pass rt opts s s' =
     (case s of
        (w, st, currentPageUrl, pageCount) \<Rightarrow>
          currentPageUrl \<noteq> [] \<and> pageCount < maxPages opts
          \<and> (case crawl_step rt opts w st currentPageUrl of
                (Some nxt, st', w') \<Rightarrow> s' = (w', st', nxt, pageCount + 1)
              | (None, st', w') \<Rightarrow> False))"

section \<open>The scheduler: runOnce\<close>

record config =
  cfg_url :: string
  cfg_format :: string
  cfg_maxPages :: nat
  cfg_usePagination :: bool
  cfg_filename :: "string option"

text \<open>
  The object \<open>runOnce\<close> returns: \<open>{success, count, articles}\<close>, with \<open>filepath\<close>
  after a save and \<open>error\<close> after a caught error; a property the object lacks is
  \<open>None\<close>.
\<close>

record run_result =
  success :: bool
  count :: "nat option"
  articles :: "article list option"
  filepath :: "string option"
  error :: "string option"

definition saver_of :: "string \<Rightarrow> saver" where
  "saver_of fmt =
     (if fmt = ''csv'' then SaveToCsv else if fmt = ''both'' then SaveToBoth else SaveToJson)"

definition runOnce :: "'w runtime \<Rightarrow> 'w \<Rightarrow> config \<Rightarrow> run_result \<times> 'w" where
  "runOnce rt w cfg =
     (case (if cfg_usePagination cfg \<and> 1 < cfg_maxPages cfg
            then (case scrapeMultiplePages rt w (cfg_url cfg)
                         (default_options\<lparr>maxPages := cfg_maxPages cfg\<rparr>) of
                    ((arts, pages), w') \<Rightarrow> (Inr arts, w'))
            else scrapeNews rt w (cfg_url cfg)) of
        (Inl msg, w') \<Rightarrow>
          (\<lparr>success = False, count = None, articles = None, filepath = None,
            error = Some msg\<rparr>, w')
      | (Inr arts, w') \<Rightarrow>
          if length arts = 0
          then (\<lparr>success = True, count = Some 0, articles = Some [], filepath = None,
                 error = None\<rparr>, w')
          else (case rt_save rt w' (saver_of (cfg_format cfg)) arts
                       (if saver_of (cfg_format cfg) = SaveToBoth then None
                        else cfg_filename cfg) of
                  (Inl msg, w'') \<Rightarrow>
                    (\<lparr>success = False, count = None, articles = None, filepath = None,
                      error = Some msg\<rparr>, w'')
                | (Inr path, w'') \<Rightarrow>
                    (\<lparr>success = True, count = Some (length arts), articles = Some arts,
                      filepath = Some path, error = None\<rparr>, w'')))"

section \<open>Sample runtimes and pages\<close>

text \<open>
  Concrete inputs on which the model is run. \<open>digits_isNaN\<close> and
  \<open>digits_parseInt\<close> agree with JavaScript on the texts the sample pages hold: a
  string of decimal digits, and a word without digits.
\<close>

definition digits_isNaN :: "string \<Rightarrow> bool" where
  "digits_isNaN s = (\<not> list_all is_digit s)"

definition digits_parseInt :: "string \<Rightarrow> int option" where
  "digits_parseInt s =
     (let ds = takeWhile is_digit s
      in if ds = [] then None else Some (int (parseInt_digits ds)))"

definition no_save ::
  "nat \<Rightarrow> saver \<Rightarrow> article list \<Rightarrow> string option \<Rightarrow> (string + string) \<times> nat" where
  "no_save w sv arts name = (Inr ''output/news.json'', w)"

text \<open>
  \<open>page body\<close> is the tree of
  \<open><html><head></head><body>...</body></html>\<close>. The world of the sample
  runtimes is the number of requests made so far.
\<close>

definition page :: "node list \<Rightarrow> document" where
  "page body = [Element ''html'' [] [Element ''head'' [] [], Element ''body'' [] body]]"

definition next_link :: "string \<Rightarrow> node" where
  "next_link h = Element ''a'' [(''class'', ''next''), (''href'', h)] [TextNode ''Next'']"

text \<open>
  \<open>cycle_web\<close>: two listing pages whose \<open>a.next\<close> links point at each other, so
  the pagination cycles back to the starting URL.
\<close>

definition cycle_get :: "nat \<Rightarrow> string \<Rightarrow> (string + document) \<times> nat" where
  "cycle_get w u =
     (if u = ''https://a.com/page/1''
      then (Inr (page [next_link ''https://a.com/page/2'']), w + 1)
      else if u = ''https://a.com/page/2''
      then (Inr (page [next_link ''https://a.com/page/1'']), w + 1)
      else (Inl ''Request failed with status code 404'', w + 1))"

definition cycle_web :: "nat runtime" where
  "cycle_web = \<lparr>rt_URL = plainURL, rt_isNaN = digits_isNaN, rt_parseInt = digits_parseInt,
                 rt_get = cycle_get, rt_save = no_save\<rparr>"

text \<open>
  \<open>lone_web\<close>: one page without any link, every other address answers 404.
  \<open>down_web\<close>: every request fails.
\<close>

definition lone_get :: "nat \<Rightarrow> string \<Rightarrow> (string + document) \<times> nat" where
  "lone_get w u =
     (if u = ''https://a.com/news/'' then (Inr (page []), w + 1)
      else (Inl ''Request failed with status code 404'', w + 1))"

definition lone_web :: "nat runtime" where
  "lone_web = \<lparr>rt_URL = plainURL, rt_isNaN = digits_isNaN, rt_parseInt = digits_parseInt,
                rt_get = lone_get, rt_save = no_save\<rparr>"

definition down_get :: "nat \<Rightarrow> string \<Rightarrow> (string + document) \<times> nat" where
  "down_get w u = (Inl ''timeout of 30000ms exceeded'', w + 1)"

definition down_web :: "nat runtime" where
  "down_web = \<lparr>rt_URL = plainURL, rt_isNaN = digits_isNaN, rt_parseInt = digits_parseInt,
                rt_get = down_get, rt_save = no_save\<rparr>"

text \<open>
  \<open>two_links_page\<close>: no container element, two links to one article:
  \<open><a href="https://a.com/news/budget">Budget vote delayed again</a>\<close> and
  \<open><a href="https://a.com/news/budget">Read the full story here</a>\<close>.
\<close>

definition two_links_page :: document where
  "two_links_page =
     page [Element ''a'' [(''href'', ''https://a.com/news/budget'')]
             [TextNode ''Budget vote delayed again''],
           Element ''a'' [(''href'', ''https://a.com/news/budget'')]
             [TextNode ''Read the full story here'']]"

text \<open>
  \<open>council_article\<close>: an \<open><article>\<close> with a heading, a link, a short paragraph,
  a date in a \<open>span.date\<close> (no \<open><time>\<close> element) and an author whose name is
  broken over two lines:
  \<open><article><h2>Council meets</h2><a href="https://a.com/news/council">more</a>
  <p>Short text</p><span class="date">5 Jan 2024</span>
  <span class="author">Jane(newline)(3 spaces)Doe</span></article>\<close>.
\<close>

definition council_article :: node where
  "council_article =
     Element ''article'' []
       [Element ''h2'' [] [TextNode ''Council meets''],
        Element ''a'' [(''href'', ''https://a.com/news/council'')] [TextNode ''more''],
        Element ''p'' [] [TextNode ''Short text''],
        Element ''span'' [(''class'', ''date'')] [TextNode ''5 Jan 2024''],
        Element ''span'' [(''class'', ''author'')]
          [TextNode (''Jane'' @ [CHR 0x0A] @ ''   Doe'')]]"

text \<open>
  \<open>mixed_page\<close>: an \<open><article>\<close> and a \<open><div class="item">\<close>, each with a
  heading and a link of its own.
\<close>

definition mixed_page :: document where
  "mixed_page =
     page [Element ''article'' []
             [Element ''h2'' [] [TextNode ''Council meets''],
              Element ''a'' [(''href'', ''https://a.com/news/council'')] [TextNode ''more'']],
           Element ''div'' [(''class'', ''item'')]
             [Element ''h3'' [] [TextNode ''Weather''],
              Element ''a'' [(''href'', ''https://a.com/weather/today'')] [TextNode ''more'']]]"


section \<open>Properties of the string functions\<close>

lemma match_at_sound:
  assumes "match_at lit s = Some (ds, r)"
  shows "s = lit @ ds @ r \<and> ds \<noteq> [] \<and> list_all is_digit ds \<and> (r = [] \<or> \<not> is_digit (hd r))"
proof -
  from assms have p: "take (length lit) s = lit"
    and ds: "ds = takeWhile is_digit (drop (length lit) s)"
    and r: "r = dropWhile is_digit (drop (length lit) s)"
    and ne: "ds \<noteq> []"
    by (auto simp: match_at_def startsWith_def Let_def split: if_splits)
  have "s = take (length lit) s @ drop (length lit) s" by simp
  also have "drop (length lit) s = ds @ r" by (simp add: ds r)
  finally have "s = lit @ ds @ r" using p by simp
  moreover have "list_all is_digit ds"
    unfolding ds list_all_iff by (auto dest: set_takeWhileD)
  moreover have "r = [] \<or> \<not> is_digit (hd r)"
    unfolding r by (metis hd_dropWhile)
  ultimately show ?thesis using ne by simp
qed

text \<open>
  What \<open>re_search\<close> returns is a match (the literal, then a maximal non-empty run of
  digits), and no match starts to the left of it; \<open>None\<close> means that no position
  matches. So \<open>re_replace lit repl\<close> rewrites the first occurrence only.
\<close>

lemma re_search_sound:
  "re_search lit s = Some (p, ds, r) \<Longrightarrow>
     s = p @ lit @ ds @ r \<and> ds \<noteq> [] \<and> list_all is_digit ds \<and> (r = [] \<or> \<not> is_digit (hd r))"
proof (induction s arbitrary: p)
  case Nil
  then show ?case by simp
next
  case (Cons c cs)
  show ?case
  proof (cases "match_at lit (c # cs)")
    case None
    with Cons.prems obtain p' where p': "re_search lit cs = Some (p', ds, r)" and "p = c # p'"
      by auto
    with Cons.IH [OF p'] show ?thesis by simp
  next
    case (Some m)
    with Cons.prems have "match_at lit (c # cs) = Some (ds, r)" and "p = []"
      by (auto split: prod.splits)
    then show ?thesis using match_at_sound by simp
  qed
qed

lemma re_search_leftmost:
  "re_search lit s = Some (p, ds, r) \<Longrightarrow> i < length p \<Longrightarrow> match_at lit (drop i s) = None"
proof (induction s arbitrary: p i)
  case Nil
  then show ?case by simp
next
  case (Cons c cs)
  show ?case
  proof (cases "match_at lit (c # cs)")
    case None
    with Cons.prems obtain p' where p': "re_search lit cs = Some (p', ds, r)" and p: "p = c # p'"
      by auto
    show ?thesis
    proof (cases i)
      case 0
      then show ?thesis using None by simp
    next
      case (Suc j)
      with Cons.prems p have "j < length p'" by simp
      from Cons.IH [OF p' this] show ?thesis using Suc by simp
    qed
  next
    case (Some m)
    with Cons.prems have "p = []" by (auto split: prod.splits)
    with Cons.prems show ?thesis by simp
  qed
qed

lemma re_search_None:
  "re_search lit s = None \<Longrightarrow> match_at lit (drop i s) = None"
proof (induction s arbitrary: i)
  case Nil
  then show ?case by (simp add: match_at_def startsWith_def)
next
  case (Cons c cs)
  then have a: "match_at lit (c # cs) = None" and b: "re_search lit cs = None"
    by (auto split: option.splits)
  show ?case
  proof (cases i)
    case 0
    then show ?thesis using a by simp
  next
    case (Suc j)
    then show ?thesis using Cons.IH [OF b] by simp
  qed
qed

section \<open>Validation of a pagination candidate\<close>

text \<open>
  C9, as the specification states it, fails. The specification strips a
  \<open>/page/<digits>\<close> or \<open>/p/<digits>\<close> suffix from the current path; the source
  removes the first occurrence of each pattern wherever it stands. On the page
  \<open>https://a.com/p/2/comments\<close> and the candidate \<open>https://a.com/comments/latest\<close>
  the source answers \<open>true\<close>, since the current path without \<open>/p/2\<close> is
  \<open>/comments\<close>; the path does not end with the pattern, and the specification's rule
  answers \<open>false\<close>. The same happens on \<open>https://a.com/blog/p/2/\<close> with the
  candidate \<open>https://a.com/blog/p/3/\<close>, where only a slash follows the pattern.
\<close>

theorem isValidNext_suffix_counterexample:
  "isValidPagination plainURL ''https://a.com/p/2/comments'' ''https://a.com/comments/latest''
     default_options
   \<and> \<not> isValidNext_spec plainURL ''https://a.com/p/2/comments'' ''https://a.com/comments/latest''
          (sameDomainOnly default_options)
   \<and> isValidPagination plainURL ''https://a.com/blog/p/2/'' ''https://a.com/blog/p/3/''
       default_options
   \<and> \<not> isValidNext_spec plainURL ''https://a.com/blog/p/2/'' ''https://a.com/blog/p/3/''
          (sameDomainOnly default_options)"
  by code_simp

text \<open>
  C9, amended. \<open>isValidPagination\<close> is false when either URL does not parse, when
  \<open>sameDomainOnly\<close> holds and the hosts differ, and when the candidate is the current URL;
  otherwise it is true exactly when the candidate's path starts with the current path
  after the removal of its first \<open>/page/<digits>\<close> and then its first \<open>/p/<digits>\<close>
  (anywhere in the path), or the candidate's path contains \<open>page\<close>, or its query does.
\<close>

theorem isValidPagination_rules:
  "(URL currentUrl None = None \<or> URL nextUrl None = None
      \<longrightarrow> \<not> isValidPagination URL currentUrl nextUrl opts)
   \<and> (\<forall>current nxt. URL currentUrl None = Some current \<and> URL nextUrl None = Some nxt \<longrightarrow>
        (sameDomainOnly opts \<and> hostname current \<noteq> hostname nxt
           \<longrightarrow> \<not> isValidPagination URL currentUrl nextUrl opts)
      \<and> (currentUrl = nextUrl \<longrightarrow> \<not> isValidPagination URL currentUrl nextUrl opts)
      \<and> (\<not> (sameDomainOnly opts \<and> hostname current \<noteq> hostname nxt) \<and> currentUrl \<noteq> nextUrl
           \<longrightarrow> isValidPagination URL currentUrl nextUrl opts
               = (startsWith (pathname nxt)
                    (re_replace ''/p/'' [] (re_replace ''/page/'' [] (pathname current)))
                  \<or> str_includes (pathname nxt) ''page''
                  \<or> str_includes (search nxt) ''page'')))"
  by (auto simp: isValidPagination_def basePath_def split: option.splits)

text \<open>
  The two examples of the specification (the candidate is the current URL; the candidate
  is on another host) and the pair of the counterexample, through the theorem.
\<close>

theorem isValidPagination_rules_witness:
  "\<not> isValidPagination plainURL ''https://a.com/p/1'' ''https://a.com/p/1'' default_options
   \<and> \<not> isValidPagination plainURL ''https://a.com/p/1'' ''https://b.com/p/2'' default_options
   \<and> isValidPagination plainURL ''https://a.com/blog/p/2/'' ''https://a.com/blog/p/3/'' default_options"
proof -
  have c: "plainURL ''https://a.com/p/1'' None
      = Some \<lparr>href = ''https://a.com/p/1'', hostname = ''a.com'', pathname = ''/p/1'', search = []\<rparr>"
    by code_simp
  have n: "plainURL ''https://b.com/p/2'' None
      = Some \<lparr>href = ''https://b.com/p/2'', hostname = ''b.com'', pathname = ''/p/2'', search = []\<rparr>"
    by code_simp
  have c2: "plainURL ''https://a.com/blog/p/2/'' None
      = Some \<lparr>href = ''https://a.com/blog/p/2/'', hostname = ''a.com'',
               pathname = ''/blog/p/2/'', search = []\<rparr>"
    by code_simp
  have n2: "plainURL ''https://a.com/blog/p/3/'' None
      = Some \<lparr>href = ''https://a.com/blog/p/3/'', hostname = ''a.com'',
               pathname = ''/blog/p/3/'', search = []\<rparr>"
    by code_simp
  have s: "startsWith ''/blog/p/3/'' (re_replace ''/p/'' [] (re_replace ''/page/'' [] ''/blog/p/2/''))"
    by code_simp
  have d: "sameDomainOnly default_options" by (simp add: default_options_def)
  note r1 = isValidPagination_rules
    [of plainURL "''https://a.com/p/1''" "''https://a.com/p/1''" default_options]
  note r2 = isValidPagination_rules
    [of plainURL "''https://a.com/p/1''" "''https://b.com/p/2''" default_options]
  note r3 = isValidPagination_rules
    [of plainURL "''https://a.com/blog/p/2/''" "''https://a.com/blog/p/3/''" default_options]
  have "\<not> isValidPagination plainURL ''https://a.com/p/1'' ''https://a.com/p/1'' default_options"
    using r1 c by simp
  moreover
  have "\<not> isValidPagination plainURL ''https://a.com/p/1'' ''https://b.com/p/2'' default_options"
    using r2 c n d by simp
  moreover
  have "isValidPagination plainURL ''https://a.com/blog/p/2/'' ''https://a.com/blog/p/3/''
          default_options"
    using r3 c2 n2 s by simp
  ultimately show ?thesis by simp
qed

section \<open>The crawl loop\<close>

text \<open>
  \<open>crawl_loop\<close> is a total function (its termination is proved with the measure
  \<open>maxPages - pageCount\<close>). The page count it returns never exceeds the larger of the
  count it starts from and \<open>maxPages\<close>.
\<close>

lemma crawl_loop_pages:
  "snd (fst (crawl_loop rt opts w st u pc)) \<le> max pc (maxPages opts)"
proof (induction rt opts w st u pc rule: crawl_loop.induct)
  case (1 rt opts w st u pc)
  show ?case
  proof (cases "u \<noteq> [] \<and> pc < maxPages opts")
    case False
    then show ?thesis by (subst crawl_loop.simps) auto
  next
    case True
    obtain nx st' w' where step: "crawl_step rt opts w st u = (nx, st', w')"
      by (cases "crawl_step rt opts w st u") auto
    show ?thesis
    proof (cases nx)
      case None
      with True step show ?thesis by (subst crawl_loop.simps) auto
    next
      case (Some nxt)
      have "snd (fst (crawl_loop rt opts w' st' nxt (pc + 1))) \<le> max (pc + 1) (maxPages opts)"
        using "1.IH" [OF True] step Some by simp
      with True step Some show ?thesis by (subst crawl_loop.simps) auto
    qed
  qed
qed

lemma crawl_step_requests:
  fixes cnt :: "'w \<Rightarrow> nat"
  assumes "\<And>w' u'. cnt (snd (rt_get rt w' u')) \<le> cnt w' + 1"
  shows "cnt (snd (snd (crawl_step rt opts w st u))) \<le> cnt w + 2"
proof -
  obtain r1 w1 where g1: "rt_get rt w u = (r1, w1)" by (cases "rt_get rt w u") auto
  obtain r2 w2 where g2: "rt_get rt w1 u = (r2, w2)" by (cases "rt_get rt w1 u") auto
  have "cnt w1 \<le> cnt w + 1" using assms [of w u] g1 by simp
  moreover have "cnt w2 \<le> cnt w1 + 1" using assms [of w1 u] g2 by simp
  moreover have "snd (snd (crawl_step rt opts w st u)) = w2"
    using g1 g2
    by (auto simp: crawl_step_def scrapePage_def scrapeWithCheerio_def findNextPage_def
             split: sum.splits prod.splits)
  ultimately show ?thesis by simp
qed

lemma crawl_loop_requests:
  fixes cnt :: "'w \<Rightarrow> nat"
  assumes "\<And>w' u'. cnt (snd (rt_get rt w' u')) \<le> cnt w' + 1"
  shows "pc \<le> snd (fst (crawl_loop rt opts w st u pc))
       \<and> cnt (snd (crawl_loop rt opts w st u pc)) + 2 * pc
         \<le> cnt w + 2 * snd (fst (crawl_loop rt opts w st u pc))"
  using assms
proof (induction rt opts w st u pc rule: crawl_loop.induct)
  case (1 rt opts w st u pc)
  show ?case
  proof (cases "u \<noteq> [] \<and> pc < maxPages opts")
    case False
    then show ?thesis by (subst (1 2 3) crawl_loop.simps) auto
  next
    case True
    obtain nx st' w' where step: "crawl_step rt opts w st u = (nx, st', w')"
      by (cases "crawl_step rt opts w st u") auto
    have w': "cnt w' \<le> cnt w + 2"
      using crawl_step_requests [where cnt = cnt and rt = rt and w = w and opts = opts and st = st and u = u]
        "1.prems" step by simp
    show ?thesis
    proof (cases nx)
      case None
      with True step w' show ?thesis by (subst (1 2 3) crawl_loop.simps) auto
    next
      case (Some nxt)
      have ih: "pc + 1 \<le> snd (fst (crawl_loop rt opts w' st' nxt (pc + 1)))
          \<and> cnt (snd (crawl_loop rt opts w' st' nxt (pc + 1))) + 2 * (pc + 1)
            \<le> cnt w' + 2 * snd (fst (crawl_loop rt opts w' st' nxt (pc + 1)))"
        using "1.IH" [OF True] step Some "1.prems" by simp
      have eq: "crawl_loop rt opts w st u pc = crawl_loop rt opts w' st' nxt (pc + 1)"
        using True step Some by (subst crawl_loop.simps) auto
      show ?thesis unfolding eq using ih w' by auto
    qed
  qed
qed

text \<open>
  C8. For every runtime (every document graph, answering as it likes), every starting
  URL and every \<open>maxPages\<close>, the crawl returns, and the number of passes through the
  loop it reports is at most \<open>maxPages\<close>. Each pass works on one page: it makes two
  requests, both for the current page (one to scrape it, one to look for the next page),
  so a world that counts requests counts at most two per pass.
\<close>

theorem crawl_within_maxPages:
  "snd (fst (scrapeMultiplePages rt w u opts)) \<le> maxPages opts
   \<and> ((\<forall>w' u'. cnt (snd (rt_get rt w' u')) \<le> cnt w' + (1::nat))
        \<longrightarrow> cnt (snd (scrapeMultiplePages rt w u opts))
              \<le> cnt w + 2 * snd (fst (scrapeMultiplePages rt w u opts)))"
proof -
  have "snd (fst (scrapeMultiplePages rt w u opts)) \<le> maxPages opts"
    using crawl_loop_pages [of rt opts w "([], {})" u 0] by (simp add: scrapeMultiplePages_def)
  moreover have "(\<forall>w' u'. cnt (snd (rt_get rt w' u')) \<le> cnt w' + 1)
        \<longrightarrow> cnt (snd (scrapeMultiplePages rt w u opts))
              \<le> cnt w + 2 * snd (fst (scrapeMultiplePages rt w u opts))"
    using crawl_loop_requests [where cnt = cnt and rt = rt and w = w and opts = opts
        and st = "([], {})" and u = u and pc = 0]
    by (auto simp: scrapeMultiplePages_def)
  ultimately show ?thesis by simp
qed

text \<open>
  On \<open>cycle_web\<close>, whose second page links back to the first, a crawl with the
  default limit of 5 pages makes 5 passes and 10 requests.
\<close>

theorem crawl_within_maxPages_witness:
  "scrapeMultiplePages cycle_web 0 ''https://a.com/page/1'' default_options = (([], 5), 10)
   \<and> snd (fst (scrapeMultiplePages cycle_web 0 ''https://a.com/page/1'' default_options))
       \<le> maxPages default_options
   \<and> snd (scrapeMultiplePages cycle_web 0 ''https://a.com/page/1'' default_options)
       \<le> 0 + 2 * snd (fst (scrapeMultiplePages cycle_web 0 ''https://a.com/page/1''
                                default_options))"
proof -
  have run: "scrapeMultiplePages cycle_web 0 ''https://a.com/page/1'' default_options
               = (([], 5), 10)"
    by code_simp
  have counted: "\<forall>w' u'. snd (rt_get cycle_web w' u') \<le> w' + (1::nat)"
    by (simp add: cycle_web_def cycle_get_def)
  from crawl_within_maxPages
    [where rt = cycle_web and w = 0 and u = "''https://a.com/page/1''"
       and opts = default_options and cnt = "\<lambda>w. w"]
    counted run
  show ?thesis by simp
qed

section \<open>Discovery of the next page\<close>

lemma appended_page_differs: "strip_trailing_slash u @ ''/page/'' @ n \<noteq> u"
proof -
  have "length u \<le> length (strip_trailing_slash u) + 1"
    by (cases "endsWith u ''/''") (simp_all add: strip_trailing_slash_def)
  then have "length u < length (strip_trailing_slash u @ ''/page/'' @ n)" by simp
  then show ?thesis by (metis less_irrefl)
qed

lemma re_replace_empty: "re_replace (x # lit) (x # repl) u = [] \<Longrightarrow> u = []"
  by (auto simp: re_replace_def split: option.splits)

lemma url_patterns_nonempty:
  assumes "c \<in> set (url_patterns u)" and "c \<noteq> u"
  shows "c \<noteq> []"
proof
  assume e: "c = []"
  from assms(1) e have "u = []"
    unfolding url_patterns_def Let_def
    by (auto dest: re_replace_empty [OF sym])
  with assms(2) e show False by simp
qed

lemma synthesize_Some: "\<exists>c. synthesize u = Some c \<and> c \<noteq> u \<and> c \<noteq> []"
proof -
  have m: "strip_trailing_slash u @ ''/page/'' @ show_nat (extractPageNumber u + 1) \<in> set (url_patterns u)"
    by (simp add: url_patterns_def Let_def)
  have "\<exists>x \<in> set (url_patterns u). x \<noteq> u"
    using m appended_page_differs by blast
  then obtain c where c: "List.find (\<lambda>p. p \<noteq> u) (url_patterns u) = Some c"
    by (cases "List.find (\<lambda>p. p \<noteq> u) (url_patterns u)") (auto simp: find_None_iff)
  then have "c \<in> set (url_patterns u)" and "c \<noteq> u"
    by (auto simp: find_Some_iff)
  then show ?thesis using c url_patterns_nonempty by (auto simp: synthesize_def)
qed

lemma discover_truthy: "truthy (discover rt doc u)"
proof -
  obtain c where c: "synthesize u = Some c" "c \<noteq> []" using synthesize_Some by blast
  then show ?thesis by (auto simp: discover_def Let_def truthy_def split: option.splits)
qed

lemma crawl_step_Some: "crawl_step rt opts w st u = (Some nxt, st', w') \<Longrightarrow> nxt \<noteq> []"
  by (auto simp: crawl_step_def truthy_def split: prod.splits if_splits)

text \<open>
  What a pass leaves behind, and when it breaks the loop: exactly when the request of
  \<open>findNextPage\<close> (made in the world the scrape of the page left) fails, or the
  candidate found in the document it returns is rejected by \<open>isValidPagination\<close>.
\<close>

lemma crawl_step_parts:
  "snd (crawl_step rt opts w st u)
     = (add_new st (fst (scrapePage rt w u)), snd (rt_get rt (snd (scrapePage rt w u)) u))"
  by (simp add: crawl_step_def findNextPage_def split: prod.splits sum.splits)

lemma crawl_step_None_iff:
  "(fst (crawl_step rt opts w st u) = None)
     = ((\<exists>e. fst (rt_get rt (snd (scrapePage rt w u)) u) = Inl e)
        \<or> (\<exists>doc. fst (rt_get rt (snd (scrapePage rt w u)) u) = Inr doc
             \<and> \<not> isValidPagination (rt_URL rt) u (attr_or (discover rt doc u) []) opts))"
proof -
  obtain pa w1 where s: "scrapePage rt w u = (pa, w1)" by (cases "scrapePage rt w u") auto
  obtain r w2 where g: "rt_get rt w1 u = (r, w2)" by (cases "rt_get rt w1 u") auto
  show ?thesis
  proof (cases r)
    case (Inl e)
    with g have "findNextPage rt w1 u = (None, w2)" by (simp add: findNextPage_def)
    then have "fst (crawl_step rt opts w st u) = None"
      using s by (simp add: crawl_step_def truthy_def)
    then show ?thesis using s g Inl by simp
  next
    case (Inr doc)
    with g have f: "findNextPage rt w1 u = (discover rt doc u, w2)"
      by (simp add: findNextPage_def)
    have t: "truthy (discover rt doc u)" by (rule discover_truthy)
    then have "discover rt doc u \<noteq> None" by (auto simp: truthy_def split: option.splits)
    then have "(fst (crawl_step rt opts w st u) = None)
        = (\<not> isValidPagination (rt_URL rt) u (attr_or (discover rt doc u) []) opts)"
      using s f t by (simp add: crawl_step_def)
    then show ?thesis using s g Inr by simp
  qed
qed

lemma crawl_loop_last_pass:
  assumes "u \<noteq> []" and "pc < maxPages opts"
  shows "\<exists>w0 st0 u0 pc0. rtranclp (pass rt opts) (w, st, u, pc) (w0, st0, u0, pc0)
      \<and> u0 \<noteq> [] \<and> pc0 < maxPages opts
      \<and> crawl_loop rt opts w st u pc
          = ((fst (fst (snd (crawl_step rt opts w0 st0 u0))), pc0 + 1),
             snd (snd (crawl_step rt opts w0 st0 u0)))
      \<and> (fst (crawl_step rt opts w0 st0 u0) = None \<or> pc0 + 1 = maxPages opts)"
  using assms
proof (induction rt opts w st u pc rule: crawl_loop.induct)
  case (1 rt opts w st u pc)
  have cond: "u \<noteq> [] \<and> pc < maxPages opts" using "1.prems" by simp
  obtain nx st' w' where step: "crawl_step rt opts w st u = (nx, st', w')"
    by (cases "crawl_step rt opts w st u") auto
  have here: "rtranclp (pass rt opts) (w, st, u, pc) (w, st, u, pc)" by simp
  show ?case
  proof (cases nx)
    case None
    have eq: "crawl_loop rt opts w st u pc = ((fst st', pc + 1), w')"
      using cond step None by (subst crawl_loop.simps) simp
    have "rtranclp (pass rt opts) (w, st, u, pc) (w, st, u, pc)
      \<and> u \<noteq> [] \<and> pc < maxPages opts
      \<and> crawl_loop rt opts w st u pc
          = ((fst (fst (snd (crawl_step rt opts w st u))), pc + 1),
             snd (snd (crawl_step rt opts w st u)))
      \<and> (fst (crawl_step rt opts w st u) = None \<or> pc + 1 = maxPages opts)"
      using here cond eq step None by simp
    then show ?thesis by (intro exI)
  next
    case (Some nxt)
    have eq: "crawl_loop rt opts w st u pc = crawl_loop rt opts w' st' nxt (pc + 1)"
      using cond step Some by (subst crawl_loop.simps) simp
    have ne: "nxt \<noteq> []" using step Some by (simp add: crawl_step_Some)
    show ?thesis
    proof (cases "pc + 1 < maxPages opts")
      case False
      then have "crawl_loop rt opts w' st' nxt (pc + 1) = ((fst st', pc + 1), w')"
        by (subst crawl_loop.simps) simp
      with eq have eq': "crawl_loop rt opts w st u pc = ((fst st', pc + 1), w')" by simp
      have lim: "pc + 1 = maxPages opts" using False cond by simp
      have "rtranclp (pass rt opts) (w, st, u, pc) (w, st, u, pc)
        \<and> u \<noteq> [] \<and> pc < maxPages opts
        \<and> crawl_loop rt opts w st u pc
            = ((fst (fst (snd (crawl_step rt opts w st u))), pc + 1),
               snd (snd (crawl_step rt opts w st u)))
        \<and> (fst (crawl_step rt opts w st u) = None \<or> pc + 1 = maxPages opts)"
        using here cond eq' step lim by simp
      then show ?thesis by (intro exI)
    next
      case True
      have s2: "(Some nxt, st', w') = crawl_step rt opts w st u" using step Some by simp
      from "1.IH" [OF cond s2 refl refl ne True]
      obtain w0 st0 u0 pc0 where
        r: "rtranclp (pass rt opts) (w', st', nxt, pc + 1) (w0, st0, u0, pc0)"
        and rest: "u0 \<noteq> [] \<and> pc0 < maxPages opts
          \<and> crawl_loop rt opts w' st' nxt (pc + 1)
              = ((fst (fst (snd (crawl_step rt opts w0 st0 u0))), pc0 + 1),
                 snd (snd (crawl_step rt opts w0 st0 u0)))
          \<and> (fst (crawl_step rt opts w0 st0 u0) = None \<or> pc0 + 1 = maxPages opts)"
        by blast
      have p: "pass rt opts (w, st, u, pc) (w', st', nxt, pc + 1)"
        using cond step Some by (simp add: pass_def)
      have "rtranclp (pass rt opts) (w, st, u, pc) (w0, st0, u0, pc0)"
        using p r by (rule converse_rtranclp_into_rtranclp)
      with rest eq have "rtranclp (pass rt opts) (w, st, u, pc) (w0, st0, u0, pc0)
        \<and> u0 \<noteq> [] \<and> pc0 < maxPages opts
        \<and> crawl_loop rt opts w st u pc
            = ((fst (fst (snd (crawl_step rt opts w0 st0 u0))), pc0 + 1),
               snd (snd (crawl_step rt opts w0 st0 u0)))
        \<and> (fst (crawl_step rt opts w0 st0 u0) = None \<or> pc0 + 1 = maxPages opts)"
        by simp
      then show ?thesis by (intro exI)
    qed
  qed
qed

text \<open>
  C10. When the request of \<open>findNextPage\<close> succeeds, the result is never \<open>null\<close>
  (nor the empty string): the fifth rewriting of strategy 3, \<open>/page/<n+1>\<close> appended
  to the URL without its trailing slash, always differs from the URL, so strategy 3 always
  finds a candidate. Hence a pass breaks the loop exactly when its discovery request
  fails or \<open>isValidPagination\<close> rejects the candidate found; and a crawl that reports
  fewer than \<open>maxPages\<close> passes reached, by passes that went on, a page where one of
  the two happened, and returned what the pass on that page left.
\<close>

theorem findNextPage_never_null:
  "(\<forall>doc w1. rt_get rt w u = (Inr doc, w1) \<longrightarrow> truthy (fst (findNextPage rt w u)))
   \<and> strip_trailing_slash u @ ''/page/'' @ show_nat (extractPageNumber u + 1) \<noteq> u
   \<and> synthesize u \<noteq> None
   \<and> ((fst (crawl_step rt opts w st u) = None)
        = ((\<exists>e. fst (rt_get rt (snd (scrapePage rt w u)) u) = Inl e)
           \<or> (\<exists>doc. fst (rt_get rt (snd (scrapePage rt w u)) u) = Inr doc
                \<and> \<not> isValidPagination (rt_URL rt) u (attr_or (discover rt doc u) []) opts)))
   \<and> (u \<noteq> [] \<and> 0 < maxPages opts
        \<and> snd (fst (scrapeMultiplePages rt w u opts)) < maxPages opts
      \<longrightarrow> (\<exists>w0 st0 u0 pc0.
             rtranclp (pass rt opts) (w, ([], {}), u, 0) (w0, st0, u0, pc0)
             \<and> u0 \<noteq> [] \<and> pc0 < maxPages opts
             \<and> scrapeMultiplePages rt w u opts
                 = ((fst (add_new st0 (fst (scrapePage rt w0 u0))), pc0 + 1),
                    snd (rt_get rt (snd (scrapePage rt w0 u0)) u0))
             \<and> ((\<exists>e. fst (rt_get rt (snd (scrapePage rt w0 u0)) u0) = Inl e)
                \<or> (\<exists>doc. fst (rt_get rt (snd (scrapePage rt w0 u0)) u0) = Inr doc
                     \<and> \<not> isValidPagination (rt_URL rt) u0
                           (attr_or (discover rt doc u0) []) opts))))"
proof (intro conjI impI)
  show "\<forall>doc w1. rt_get rt w u = (Inr doc, w1) \<longrightarrow> truthy (fst (findNextPage rt w u))"
    by (simp add: findNextPage_def discover_truthy)
next
  show "strip_trailing_slash u @ ''/page/'' @ show_nat (extractPageNumber u + 1) \<noteq> u"
    by (rule appended_page_differs)
next
  show "synthesize u \<noteq> None" using synthesize_Some [of u] by auto
next
  show "(fst (crawl_step rt opts w st u) = None)
        = ((\<exists>e. fst (rt_get rt (snd (scrapePage rt w u)) u) = Inl e)
           \<or> (\<exists>doc. fst (rt_get rt (snd (scrapePage rt w u)) u) = Inr doc
                \<and> \<not> isValidPagination (rt_URL rt) u (attr_or (discover rt doc u) []) opts))"
    by (rule crawl_step_None_iff)
next
  assume h: "u \<noteq> [] \<and> 0 < maxPages opts
        \<and> snd (fst (scrapeMultiplePages rt w u opts)) < maxPages opts"
  then have u: "u \<noteq> []" and m: "0 < maxPages opts"
    and lt: "snd (fst (crawl_loop rt opts w ([], {}) u 0)) < maxPages opts"
    by (simp_all add: scrapeMultiplePages_def)
  from crawl_loop_last_pass [OF u m, of rt w "([], {})"]
  obtain w0 st0 u0 pc0 where
    r: "rtranclp (pass rt opts) (w, ([], {}), u, 0) (w0, st0, u0, pc0)"
    and u0: "u0 \<noteq> []" and p0: "pc0 < maxPages opts"
    and res: "crawl_loop rt opts w ([], {}) u 0
          = ((fst (fst (snd (crawl_step rt opts w0 st0 u0))), pc0 + 1),
             snd (snd (crawl_step rt opts w0 st0 u0)))"
    and why: "fst (crawl_step rt opts w0 st0 u0) = None \<or> pc0 + 1 = maxPages opts"
    by blast
  from res lt have "pc0 + 1 < maxPages opts" by simp
  with why have stop: "fst (crawl_step rt opts w0 st0 u0) = None" by simp
  have cause: "(\<exists>e. fst (rt_get rt (snd (scrapePage rt w0 u0)) u0) = Inl e)
      \<or> (\<exists>doc. fst (rt_get rt (snd (scrapePage rt w0 u0)) u0) = Inr doc
           \<and> \<not> isValidPagination (rt_URL rt) u0 (attr_or (discover rt doc u0) []) opts)"
    using stop by (simp only: crawl_step_None_iff)
  have out: "scrapeMultiplePages rt w u opts
      = ((fst (add_new st0 (fst (scrapePage rt w0 u0))), pc0 + 1),
         snd (rt_get rt (snd (scrapePage rt w0 u0)) u0))"
    using res by (simp add: scrapeMultiplePages_def crawl_step_parts)
  have "rtranclp (pass rt opts) (w, ([], {}), u, 0) (w0, st0, u0, pc0)
             \<and> u0 \<noteq> [] \<and> pc0 < maxPages opts
             \<and> scrapeMultiplePages rt w u opts
                 = ((fst (add_new st0 (fst (scrapePage rt w0 u0))), pc0 + 1),
                    snd (rt_get rt (snd (scrapePage rt w0 u0)) u0))
             \<and> ((\<exists>e. fst (rt_get rt (snd (scrapePage rt w0 u0)) u0) = Inl e)
                \<or> (\<exists>doc. fst (rt_get rt (snd (scrapePage rt w0 u0)) u0) = Inr doc
                     \<and> \<not> isValidPagination (rt_URL rt) u0
                           (attr_or (discover rt doc u0) []) opts))"
    using r u0 p0 out cause by (intro conjI)
  then show "\<exists>w0 st0 u0 pc0.
             rtranclp (pass rt opts) (w, ([], {}), u, 0) (w0, st0, u0, pc0)
             \<and> u0 \<noteq> [] \<and> pc0 < maxPages opts
             \<and> scrapeMultiplePages rt w u opts
                 = ((fst (add_new st0 (fst (scrapePage rt w0 u0))), pc0 + 1),
                    snd (rt_get rt (snd (scrapePage rt w0 u0)) u0))
             \<and> ((\<exists>e. fst (rt_get rt (snd (scrapePage rt w0 u0)) u0) = Inl e)
                \<or> (\<exists>doc. fst (rt_get rt (snd (scrapePage rt w0 u0)) u0) = Inr doc
                     \<and> \<not> isValidPagination (rt_URL rt) u0
                           (attr_or (discover rt doc u0) []) opts))"
    by (intro exI)
qed

text \<open>
  On \<open>lone_web\<close> the page has no link: the candidate
  \<open>https://a.com/news/page/2\<close> is synthesized and the first pass goes on to it; there
  the discovery request is answered 404, which ends the crawl after two passes.
\<close>

theorem findNextPage_never_null_witness:
  "fst (findNextPage lone_web 0 ''https://a.com/news/'') = Some ''https://a.com/news/page/2''
   \<and> truthy (fst (findNextPage lone_web 0 ''https://a.com/news/''))
   \<and> scrapeMultiplePages lone_web 0 ''https://a.com/news/'' default_options = (([], 2), 4)
   \<and> pass lone_web default_options (0, ([], {}), ''https://a.com/news/'', 0)
        (2, ([], {}), ''https://a.com/news/page/2'', 1)
   \<and> fst (crawl_step lone_web default_options 2 ([], {}) ''https://a.com/news/page/2'') = None
   \<and> fst (rt_get lone_web (snd (scrapePage lone_web 2 ''https://a.com/news/page/2''))
             ''https://a.com/news/page/2'') = Inl ''Request failed with status code 404''
   \<and> (\<exists>w0 st0 u0 pc0.
         rtranclp (pass lone_web default_options) (0, ([], {}), ''https://a.com/news/'', 0)
           (w0, st0, u0, pc0)
         \<and> u0 \<noteq> [] \<and> pc0 < maxPages default_options
         \<and> scrapeMultiplePages lone_web 0 ''https://a.com/news/'' default_options
             = ((fst (add_new st0 (fst (scrapePage lone_web w0 u0))), pc0 + 1),
                snd (rt_get lone_web (snd (scrapePage lone_web w0 u0)) u0))
         \<and> ((\<exists>e. fst (rt_get lone_web (snd (scrapePage lone_web w0 u0)) u0) = Inl e)
            \<or> (\<exists>doc. fst (rt_get lone_web (snd (scrapePage lone_web w0 u0)) u0) = Inr doc
                 \<and> \<not> isValidPagination (rt_URL lone_web) u0
                       (attr_or (discover lone_web doc u0) []) default_options)))"
proof -
  have g: "rt_get lone_web 0 ''https://a.com/news/'' = (Inr (page []), 1)"
    by (simp add: lone_web_def lone_get_def)
  have f: "fst (findNextPage lone_web 0 ''https://a.com/news/'') = Some ''https://a.com/news/page/2''"
    by code_simp
  have run: "scrapeMultiplePages lone_web 0 ''https://a.com/news/'' default_options = (([], 2), 4)"
    by code_simp
  have p: "pass lone_web default_options (0, ([], {}), ''https://a.com/news/'', 0)
        (2, ([], {}), ''https://a.com/news/page/2'', 1)"
    by code_simp
  have c: "fst (rt_get lone_web (snd (scrapePage lone_web 2 ''https://a.com/news/page/2''))
             ''https://a.com/news/page/2'') = Inl ''Request failed with status code 404''"
    by code_simp
  have m: "maxPages default_options = 5" by (simp add: default_options_def)
  note t1 = findNextPage_never_null
    [where rt = lone_web and w = 0 and u = "''https://a.com/news/''" and opts = default_options]
  note t2 = findNextPage_never_null
    [where rt = lone_web and w = 2 and u = "''https://a.com/news/page/2''"
       and opts = default_options and st = "([], {})"]
  from t1 g have a: "truthy (fst (findNextPage lone_web 0 ''https://a.com/news/''))" by simp
  from t2 c have s: "fst (crawl_step lone_web default_options 2 ([], {})
                            ''https://a.com/news/page/2'') = None"
    by simp
  from t1 run m have e: "\<exists>w0 st0 u0 pc0.
         rtranclp (pass lone_web default_options) (0, ([], {}), ''https://a.com/news/'', 0)
           (w0, st0, u0, pc0)
         \<and> u0 \<noteq> [] \<and> pc0 < maxPages default_options
         \<and> scrapeMultiplePages lone_web 0 ''https://a.com/news/'' default_options
             = ((fst (add_new st0 (fst (scrapePage lone_web w0 u0))), pc0 + 1),
                snd (rt_get lone_web (snd (scrapePage lone_web w0 u0)) u0))
         \<and> ((\<exists>e. fst (rt_get lone_web (snd (scrapePage lone_web w0 u0)) u0) = Inl e)
            \<or> (\<exists>doc. fst (rt_get lone_web (snd (scrapePage lone_web w0 u0)) u0) = Inr doc
                 \<and> \<not> isValidPagination (rt_URL lone_web) u0
                       (attr_or (discover lone_web doc u0) []) default_options))"
    by simp
  from f a run p s c e show ?thesis by (intro conjI)
qed

section \<open>The extraction engine\<close>

text \<open>
  In the loop over the matched elements, \<open>seenUrls\<close> holds the URLs of
  \<open>articles\<close>, and the URLs of \<open>articles\<close> stay pairwise different.
\<close>

lemma each_element_seen:
  "seen = url ` set arts \<Longrightarrow>
   snd (each_element URL b (arts, seen) els) = url ` set (fst (each_element URL b (arts, seen) els))"
proof (induction els arbitrary: arts seen)
  case Nil
  then show ?case by simp
next
  case (Cons e es)
  show ?case
  proof (cases "parseArticle URL e b")
    case None
    then show ?thesis using Cons.IH [OF Cons.prems] by simp
  next
    case (Some a)
    have "insert (url a) seen = url ` set (arts @ [a])" using Cons.prems by auto
    from Cons.IH [OF this] Cons.IH [OF Cons.prems] Some show ?thesis by simp
  qed
qed

lemma each_element_distinct:
  "seen = url ` set arts \<Longrightarrow> distinct (map url arts) \<Longrightarrow>
   distinct (map url (fst (each_element URL b (arts, seen) els)))"
proof (induction els arbitrary: arts seen)
  case Nil
  then show ?case by simp
next
  case (Cons e es)
  show ?case
  proof (cases "parseArticle URL e b")
    case None
    then show ?thesis using Cons.IH [OF Cons.prems] by simp
  next
    case (Some a)
    show ?thesis
    proof (cases "title a \<noteq> [] \<and> url a \<noteq> [] \<and> url a \<notin> seen")
      case True
      have s: "insert (url a) seen = url ` set (arts @ [a])" using Cons.prems by auto
      have d: "distinct (map url (arts @ [a]))" using Cons.prems True by auto
      from Cons.IH [OF s d] Some True show ?thesis by simp
    next
      case False
      then show ?thesis using Cons.IH [OF Cons.prems] Some by auto
    qed
  qed
qed

lemma each_element_none:
  assumes "fst (each_element URL b ([], {}) els) = []"
  shows "each_element URL b ([], {}) els = ([], {})"
proof -
  have "snd (each_element URL b ([], {}) els) = url ` set (fst (each_element URL b ([], {}) els))"
    by (rule each_element_seen) simp
  with assms have "snd (each_element URL b ([], {}) els) = {}" by simp
  with assms show ?thesis by (simp add: prod_eq_iff)
qed

lemma try_selectors_skip:
  "list_all (\<lambda>p. fst (each_element URL b ([], {}) (query doc p)) = []) pre \<Longrightarrow>
   try_selectors URL doc b ([], {}) (pre @ rest) = try_selectors URL doc b ([], {}) rest"
proof (induction pre)
  case Nil
  then show ?case by simp
next
  case (Cons p ps)
  then have "fst (each_element URL b ([], {}) (query doc p)) = []" by simp
  then have "each_element URL b ([], {}) (query doc p) = ([], {})" by (rule each_element_none)
  then show ?case using Cons by simp
qed

lemma try_selectors_productive:
  "fst (each_element URL b ([], {}) (query doc s)) \<noteq> [] \<Longrightarrow>
   try_selectors URL doc b ([], {}) (s # post) = each_element URL b ([], {}) (query doc s)"
  by (simp add: Let_def)

lemma extractArticles_with_single:
  "fst (each_element URL b ([], {}) (query doc s)) \<noteq> [] \<Longrightarrow>
   extractArticles_with [s] URL doc b = fst (each_element URL b ([], {}) (query doc s))"
  by (simp add: extractArticles_with_def Let_def)

text \<open>
  C7. When no selector before \<open>s\<close> in the list yields an accepted record and \<open>s\<close>
  yields at least one, the output is the output computed with \<open>s\<close> alone: the records
  accepted among the elements \<open>s\<close> matches. This holds for every list of selectors, and
  so for the list of the source wherever \<open>s\<close> stands in it.
\<close>

theorem selector_precedence:
  assumes "list_all (\<lambda>p. fst (each_element URL baseUrl ([], {}) (query doc p)) = []) pre"
    and "fst (each_element URL baseUrl ([], {}) (query doc s)) \<noteq> []"
  shows "extractArticles_with (pre @ s # post) URL doc baseUrl
           = extractArticles_with [s] URL doc baseUrl
       \<and> extractArticles_with [s] URL doc baseUrl
           = fst (each_element URL baseUrl ([], {}) (query doc s))
       \<and> (selectors = pre @ s # post
            \<longrightarrow> extractArticles URL doc baseUrl = extractArticles_with [s] URL doc baseUrl)"
proof -
  have "try_selectors URL doc baseUrl ([], {}) (pre @ s # post)
          = each_element URL baseUrl ([], {}) (query doc s)"
    using try_selectors_skip [OF assms(1)] try_selectors_productive [OF assms(2)] by simp
  then have a: "extractArticles_with (pre @ s # post) URL doc baseUrl
                  = fst (each_element URL baseUrl ([], {}) (query doc s))"
    using assms(2) by (simp add: extractArticles_with_def Let_def)
  have b: "extractArticles_with [s] URL doc baseUrl
             = fst (each_element URL baseUrl ([], {}) (query doc s))"
    by (rule extractArticles_with_single [OF assms(2)])
  have c: "selectors = pre @ s # post
            \<longrightarrow> extractArticles URL doc baseUrl = extractArticles_with [s] URL doc baseUrl"
  proof
    assume "selectors = pre @ s # post"
    then have "extractArticles URL doc baseUrl
                 = extractArticles_with (pre @ s # post) URL doc baseUrl"
      by (simp only: extractArticles_def)
    with a b show "extractArticles URL doc baseUrl = extractArticles_with [s] URL doc baseUrl"
      by simp
  qed
  from a b c show ?thesis by simp
qed

text \<open>
  On \<open>mixed_page\<close> the \<open>article\<close> selector, first in the list, yields a record:
  the output is that record, and the record the \<open>.item\<close> selector would give is not
  merged in.
\<close>

theorem selector_precedence_witness:
  "extractArticles plainURL mixed_page ''https://a.com/''
     = extractArticles_with [one [Tag ''article'']] plainURL mixed_page ''https://a.com/''
   \<and> map url (extractArticles plainURL mixed_page ''https://a.com/'')
     = [''https://a.com/news/council'']
   \<and> map url (extractArticles_with [one [Class ''item'']] plainURL mixed_page ''https://a.com/'')
     = [''https://a.com/weather/today'']"
proof -
  have p: "fst (each_element plainURL ''https://a.com/'' ([], {})
                  (query mixed_page (one [Tag ''article'']))) \<noteq> []"
    by code_simp
  have s: "selectors = [] @ one [Tag ''article''] # tl selectors"
    by (simp add: selectors_def)
  have "extractArticles plainURL mixed_page ''https://a.com/''
     = extractArticles_with [one [Tag ''article'']] plainURL mixed_page ''https://a.com/''"
    using selector_precedence [where pre = "[]" and s = "one [Tag ''article'']"
        and post = "tl selectors" and URL = plainURL and doc = mixed_page
        and baseUrl = "''https://a.com/''"] p s
    by simp
  moreover have "map url (extractArticles_with [one [Tag ''article'']] plainURL mixed_page
                    ''https://a.com/'') = [''https://a.com/news/council'']"
    by code_simp
  moreover have "map url (extractArticles_with [one [Class ''item'']] plainURL mixed_page
                    ''https://a.com/'') = [''https://a.com/weather/today'']"
    by code_simp
  ultimately show ?thesis by simp
qed

text \<open>
  The records the container selectors give have pairwise different URLs.
\<close>

lemma try_selectors_distinct:
  "seen = url ` set arts \<Longrightarrow> distinct (map url arts) \<Longrightarrow>
   distinct (map url (fst (try_selectors URL doc b (arts, seen) sels)))"
proof (induction sels arbitrary: arts seen)
  case Nil
  then show ?case by simp
next
  case (Cons s ss)
  obtain arts' seen' where e: "each_element URL b (arts, seen) (query doc s) = (arts', seen')"
    by (cases "each_element URL b (arts, seen) (query doc s)") auto
  have s': "seen' = url ` set arts'"
    using each_element_seen [OF Cons.prems(1), of URL b "query doc s"] e by simp
  have d': "distinct (map url arts')"
    using each_element_distinct [OF Cons.prems, of URL b "query doc s"] e by simp
  show ?case
  proof (cases "arts' = []")
    case True
    then show ?thesis using e Cons.IH [OF s' d'] by (simp add: Let_def)
  next
    case False
    then show ?thesis using e d' by (simp add: Let_def)
  qed
qed

text \<open>
  C1. The link-harvesting pass keeps no set of seen URLs: on \<open>two_links_page\<close>, where
  no container selector matches and two links lead to one article, \<open>extractArticles\<close>
  returns two records with the same \<open>url\<close>.
\<close>

theorem extractArticles_duplicate_urls:
  "map url (extractArticles plainURL two_links_page ''https://a.com/'')
     = [''https://a.com/news/budget'', ''https://a.com/news/budget'']
   \<and> \<not> distinct (map url (extractArticles plainURL two_links_page ''https://a.com/''))"
proof -
  have "map url (extractArticles plainURL two_links_page ''https://a.com/'')
     = [''https://a.com/news/budget'', ''https://a.com/news/budget'']"
    by code_simp
  then show ?thesis by simp
qed

text \<open>
  C3. \<open>parseArticle\<close> passes the title and the description through \<open>cleanText\<close> but
  not the author: the author of \<open>council_article\<close> keeps its line break and its run of
  spaces.
\<close>

theorem parseArticle_author_not_normalized:
  "map_option author (parseArticle plainURL council_article ''https://a.com/'')
     = Some (''Jane'' @ [CHR 0x0A] @ ''   Doe'')
   \<and> cleanText (''Jane'' @ [CHR 0x0A] @ ''   Doe'') = ''Jane Doe''"
  by code_simp

lemma find_date_without_time:
  "cheerio_find art (one [Tag ''time'']) = [] \<Longrightarrow> find_date art = []"
  by (simp add: find_date_def obj_or_def first_def)

text \<open>
  C4. The element the date is read from is always the result of \<open>find('time').first()\<close>:
  \<open>council_article\<close> has no \<open><time>\<close> element and a \<open>span.date\<close>, and its
  record has the empty date.
\<close>

theorem parseArticle_date_fallback_dead:
  "cheerio_find council_article (one [Tag ''time'']) = []
   \<and> map sel_text [cheerio_find council_article (one [AttrSub ''class'' ''date''])]
       = [''5 Jan 2024'']
   \<and> map_option date (parseArticle plainURL council_article ''https://a.com/'') = Some []"
  by code_simp

text \<open>
  C5. A candidate of at most 20 characters stays in the variable \<open>description\<close> when
  the loop goes on: the only candidate of \<open>council_article\<close> is \<open>Short text\<close>, and
  that is the description of its record.
\<close>

theorem parseArticle_short_description_kept:
  "map_option description (parseArticle plainURL council_article ''https://a.com/'')
     = Some ''Short text''"
  by code_simp

section \<open>The article-URL heuristic\<close>













section \<open>A crawl whose first request fails\<close>

lemma scrapeWithCheerio_fails:
  "rt_get rt w u = (Inl e, wa) \<Longrightarrow> scrapeWithCheerio rt w u = ([], wa)"
  by (simp add: scrapeWithCheerio_def)

lemma findNextPage_fails:
  "rt_get rt w u = (Inl e, wa) \<Longrightarrow> findNextPage rt w u = (None, wa)"
  by (simp add: findNextPage_def)

lemma crawl_loop_first_fails:
  assumes "rt_get rt w u = (Inl e, wa)" and "rt_get rt wa u = (Inl eb, wb)"
    and "u \<noteq> []" and "0 < maxPages opts"
  shows "crawl_loop rt opts w ([], {}) u 0 = (([], 1), wb)"
proof -
  have "crawl_step rt opts w ([], {}) u = (None, ([], {}), wb)"
    using assms(1,2)
    by (simp add: crawl_step_def scrapePage_def scrapeWithCheerio_fails findNextPage_fails
          truthy_def)
  with assms(3,4) show ?thesis by (subst crawl_loop.simps) simp
qed

lemma crawl_loop_no_url: "crawl_loop rt opts w st [] pc = ((fst st, pc), w)"
  by (subst crawl_loop.simps) simp

text \<open>
  C2, as the specification states it, fails. \<open>scrapeWithCheerio\<close> catches the error of
  the request and returns the empty array, and the paginated crawl has no way to report a
  failure: on \<open>down_web\<close>, where every request fails, \<open>runOnce\<close> with pagination
  stops after one pass and reports success with zero articles.
\<close>

theorem runOnce_fetch_failure_counterexample:
  "fst (rt_get down_web 0 ''https://a.com/news/'') = Inl ''timeout of 30000ms exceeded''
   \<and> scrapeMultiplePages down_web 0 ''https://a.com/news/''
        (default_options\<lparr>maxPages := 3\<rparr>) = (([], 1), 2)
   \<and> success (fst (runOnce down_web 0
        \<lparr>cfg_url = ''https://a.com/news/'', cfg_format = ''json'', cfg_maxPages = 3,
         cfg_usePagination = True, cfg_filename = None\<rparr>))"
  by code_simp

text \<open>
  C2, amended. When the request for a page fails, \<open>scrapeWithCheerio\<close> returns the
  empty array for it. In a paginated crawl whose first page fails in this way and whose
  discovery request for that page fails too, the crawl stops after that one pass with no
  article, and \<open>runOnce\<close> with pagination returns
  \<open>{success: true, count: 0, articles: []}\<close>. A paginated \<open>runOnce\<close> returns
  \<open>success: false\<close> only when the crawl gave articles and saving them threw, with the
  message of that error. What \<open>scrapeNews\<close> and \<open>runOnce\<close> without pagination
  report is not stated here.
\<close>

theorem paginated_first_fetch_fails:
  "(rt_get rt w u = (Inl e, wa) \<longrightarrow> scrapeWithCheerio rt w u = ([], wa))
   \<and> (rt_get rt w u = (Inl e, wa) \<and> rt_get rt wa u = (Inl eb, wb) \<and> u \<noteq> []
        \<and> 0 < maxPages opts
        \<longrightarrow> scrapeMultiplePages rt w u opts = (([], 1), wb))
   \<and> (cfg_usePagination cfg \<and> 1 < cfg_maxPages cfg
        \<and> rt_get rt w (cfg_url cfg) = (Inl e, wa) \<and> rt_get rt wa (cfg_url cfg) = (Inl eb, wb)
        \<longrightarrow> fst (runOnce rt w cfg)
              = \<lparr>success = True, count = Some 0, articles = Some [], filepath = None,
                 error = None\<rparr>)
   \<and> (cfg_usePagination cfg \<and> 1 < cfg_maxPages cfg \<and> \<not> success (fst (runOnce rt w cfg))
        \<longrightarrow> (\<exists>arts pages wc msg wd.
               scrapeMultiplePages rt w (cfg_url cfg)
                 (default_options\<lparr>maxPages := cfg_maxPages cfg\<rparr>) = ((arts, pages), wc)
               \<and> arts \<noteq> []
               \<and> rt_save rt wc (saver_of (cfg_format cfg)) arts
                    (if saver_of (cfg_format cfg) = SaveToBoth then None else cfg_filename cfg)
                  = (Inl msg, wd)
               \<and> runOnce rt w cfg
                  = (\<lparr>success = False, count = None, articles = None, filepath = None,
                      error = Some msg\<rparr>, wd)))"
proof (intro conjI impI)
  assume "rt_get rt w u = (Inl e, wa)"
  then show "scrapeWithCheerio rt w u = ([], wa)" by (rule scrapeWithCheerio_fails)
next
  assume "rt_get rt w u = (Inl e, wa) \<and> rt_get rt wa u = (Inl eb, wb) \<and> u \<noteq> []
        \<and> 0 < maxPages opts"
  then show "scrapeMultiplePages rt w u opts = (([], 1), wb)"
    by (simp add: scrapeMultiplePages_def crawl_loop_first_fails)
next
  assume h: "cfg_usePagination cfg \<and> 1 < cfg_maxPages cfg
        \<and> rt_get rt w (cfg_url cfg) = (Inl e, wa) \<and> rt_get rt wa (cfg_url cfg) = (Inl eb, wb)"
  have "fst (fst (scrapeMultiplePages rt w (cfg_url cfg)
                    (default_options\<lparr>maxPages := cfg_maxPages cfg\<rparr>))) = []"
  proof (cases "cfg_url cfg = []")
    case True
    then show ?thesis by (simp add: scrapeMultiplePages_def crawl_loop_no_url)
  next
    case False
    with h show ?thesis by (simp add: scrapeMultiplePages_def crawl_loop_first_fails)
  qed
  then show "fst (runOnce rt w cfg)
              = \<lparr>success = True, count = Some 0, articles = Some [], filepath = None,
                 error = None\<rparr>"
    using h by (auto simp: runOnce_def split: prod.splits)
next
  assume f: "cfg_usePagination cfg \<and> 1 < cfg_maxPages cfg \<and> \<not> success (fst (runOnce rt w cfg))"
  obtain arts pages wc where m: "scrapeMultiplePages rt w (cfg_url cfg)
      (default_options\<lparr>maxPages := cfg_maxPages cfg\<rparr>) = ((arts, pages), wc)"
    by (cases "scrapeMultiplePages rt w (cfg_url cfg)
          (default_options\<lparr>maxPages := cfg_maxPages cfg\<rparr>)") auto
  obtain r wd where sv: "rt_save rt wc (saver_of (cfg_format cfg)) arts
        (if saver_of (cfg_format cfg) = SaveToBoth then None else cfg_filename cfg) = (r, wd)"
    by (cases "rt_save rt wc (saver_of (cfg_format cfg)) arts
        (if saver_of (cfg_format cfg) = SaveToBoth then None else cfg_filename cfg)") auto
  from f have p: "cfg_usePagination cfg" "1 < cfg_maxPages cfg"
    and nf: "\<not> success (fst (runOnce rt w cfg))" by simp_all
  have ro: "runOnce rt w cfg
      = (if length arts = 0
         then (\<lparr>success = True, count = Some 0, articles = Some [], filepath = None,
                error = None\<rparr>, wc)
         else (case r of
                 Inl msg \<Rightarrow>
                   (\<lparr>success = False, count = None, articles = None, filepath = None,
                     error = Some msg\<rparr>, wd)
               | Inr path \<Rightarrow>
                   (\<lparr>success = True, count = Some (length arts), articles = Some arts,
                     filepath = Some path, error = None\<rparr>, wd)))"
    using p m sv by (simp add: runOnce_def split: sum.splits)
  have ne: "arts \<noteq> []"
  proof
    assume "arts = []"
    with nf ro show False by simp
  qed
  obtain msg where r: "r = Inl msg"
  proof (cases r)
    case (Inl x)
    then show ?thesis by (rule that)
  next
    case (Inr path)
    with nf ro ne have False by simp
    then show ?thesis ..
  qed
  have "runOnce rt w cfg
          = (\<lparr>success = False, count = None, articles = None, filepath = None,
              error = Some msg\<rparr>, wd)"
    using ro ne r by simp
  with m ne sv r show "\<exists>arts pages wc msg wd.
               scrapeMultiplePages rt w (cfg_url cfg)
                 (default_options\<lparr>maxPages := cfg_maxPages cfg\<rparr>) = ((arts, pages), wc)
               \<and> arts \<noteq> []
               \<and> rt_save rt wc (saver_of (cfg_format cfg)) arts
                    (if saver_of (cfg_format cfg) = SaveToBoth then None else cfg_filename cfg)
                  = (Inl msg, wd)
               \<and> runOnce rt w cfg
                  = (\<lparr>success = False, count = None, articles = None, filepath = None,
                      error = Some msg\<rparr>, wd)"
    by blast
qed

text \<open>
  On \<open>down_web\<close> both requests for the first page fail: the paginated crawl makes one
  pass and two requests, and \<open>runOnce\<close> reports success with no article.
\<close>

theorem paginated_first_fetch_fails_witness:
  "scrapeWithCheerio down_web 0 ''https://a.com/news/'' = ([], 1)
   \<and> scrapeMultiplePages down_web 0 ''https://a.com/news/'' (default_options\<lparr>maxPages := 3\<rparr>)
       = (([], 1), 2)
   \<and> fst (runOnce down_web 0
     \<lparr>cfg_url = ''https://a.com/news/'', cfg_format = ''json'', cfg_maxPages = 3,
      cfg_usePagination = True, cfg_filename = None\<rparr>)
     = \<lparr>success = True, count = Some 0, articles = Some [], filepath = None, error = None\<rparr>"
proof -
  have g: "rt_get down_web 0 ''https://a.com/news/'' = (Inl ''timeout of 30000ms exceeded'', 1)"
    by (simp add: down_web_def down_get_def)
  have g2: "rt_get down_web 1 ''https://a.com/news/'' = (Inl ''timeout of 30000ms exceeded'', 2)"
    by (simp add: down_web_def down_get_def)
  have m: "0 < maxPages (default_options\<lparr>maxPages := 3\<rparr>)" by simp
  note t = paginated_first_fetch_fails
    [where rt = down_web and w = 0 and wa = 1 and wb = 2
       and u = "''https://a.com/news/''"
       and e = "''timeout of 30000ms exceeded''" and eb = "''timeout of 30000ms exceeded''"
       and opts = "default_options\<lparr>maxPages := 3\<rparr>"
       and cfg = "\<lparr>cfg_url = ''https://a.com/news/'', cfg_format = ''json'', cfg_maxPages = 3,
                   cfg_usePagination = True, cfg_filename = None\<rparr>"]
  have a: "scrapeWithCheerio down_web 0 ''https://a.com/news/'' = ([], 1)"
    using t g by simp
  have b: "scrapeMultiplePages down_web 0 ''https://a.com/news/''
             (default_options\<lparr>maxPages := 3\<rparr>) = (([], 1), 2)"
    using t g g2 m by simp
  have c: "fst (runOnce down_web 0
     \<lparr>cfg_url = ''https://a.com/news/'', cfg_format = ''json'', cfg_maxPages = 3,
      cfg_usePagination = True, cfg_filename = None\<rparr>)
     = \<lparr>success = True, count = Some 0, articles = Some [], filepath = None, error = None\<rparr>"
    using t g g2 by simp
  from a b c show ?thesis by simp
qed

end
